theory Spec2Isabelle
  imports Main
begin

section \<open>Data model of \<open>tiktok_uploader.py\<close>\<close>

text \<open>
  A Python \<open>str\<close> is a sequence of Unicode code points, and \<open>len\<close> and slicing count
  code points; the promotional suffix of the description contains one beyond the 8-bit
  range. A string is therefore a list of code points, and \<open>ascii\<close> embeds an ASCII literal.
\<close>

type_synonym str = "nat list"

definition ascii :: "string \<Rightarrow> str" where
  "ascii s = map of_char s"

text \<open>
  An entry of the flat playlist that \<open>yt_dlp\<close> extracts. A field is \<open>None\<close> when the entry
  has no such key; a key that is present holds a string.
\<close>

record entry =
  entry_id :: "str option"
  entry_title :: "str option"
  entry_url :: "str option"
  entry_webpage_url :: "str option"

text \<open>
  The dict that \<open>get_all_tiktok_videos\<close> builds per entry has the keys \<open>id\<close>, \<open>title\<close> and
  \<open>url\<close>; \<open>main\<close> also asks it for an optional \<open>description\<close> key.
\<close>

record video =
  video_id :: str
  video_title :: str
  video_url :: str
  video_description :: "str option"

text \<open>
  The history dict of \<open>uploaded_videos.json\<close>. A field is \<open>None\<close> when the parsed object
  lacks the key; a key that is present has the type that \<open>save_uploaded_history\<close> writes.
\<close>

record history =
  current_index :: "int option"
  uploaded_ids :: "str list option"

text \<open>
  The history file on disk, as \<open>os.path.exists\<close> and \<open>json.load\<close> see it: absent, present
  with content that is not JSON, or present with a parsed object.
\<close>

datatype store_file = Missing | Unparseable | Document history

datatype error = JSONDecodeError | OSError | KeyError | IndexError | AuthError

text \<open>
  How a call of \<open>save_uploaded_history\<close> ends: the file is rewritten; \<open>open(..., 'w')\<close>
  raises and the file is untouched; or \<open>json.dump\<close> raises after \<open>open\<close> has truncated the
  file, which leaves a strict prefix of a JSON object on disk.
\<close>

datatype save_result = Saved | OpenFailed | WriteFailed

record body =
  snippet_title :: str
  snippet_description :: str
  snippet_tags :: "str list"
  snippet_categoryId :: str
  status_privacyStatus :: str
  status_selfDeclaredMadeForKids :: bool

text \<open>
  The calls into the external collaborators, logged with their outcome:
  \<open>ydl.download\<close> (url, output file, completed or raised), the resumable
  \<open>videos().insert\<close> request driven to its end (file, body, the response id or \<open>None\<close>
  when it raised), \<open>save_uploaded_history\<close>, and \<open>time.sleep\<close>.
\<close>

datatype event =
    Download str str bool
  | Upload str body "str option"
  | Save history save_result
  | Sleep nat

record world =
  store :: store_file
  trace :: "event list"

text \<open>
  The configuration and the behaviour of the collaborators during one pass. Each outcome
  may depend on everything that has happened so far (the trace).
  \<^item> \<open>makedirs_ok\<close>: \<open>setup_directories\<close> returns; otherwise its \<open>os.makedirs\<close> raises.
  \<^item> \<open>extract_info\<close>: \<open>None\<close> when importing \<open>yt_dlp\<close> or extracting raises, \<open>Some None\<close> when
    the extracted info has no key \<open>entries\<close>, else the entries, newest first.
  \<^item> \<open>path_exists\<close>: \<open>os.path.exists\<close> on the output file of a video.
  \<^item> \<open>ydl_download\<close>: \<open>ydl.download\<close> of a url into an output file returns; otherwise it raises.
  \<^item> \<open>youtube_service_ok\<close>: \<open>get_youtube_service\<close> returns a service; otherwise it raises.
  \<^item> \<open>next_chunk\<close>: how the insert request for a file and a body ends. The media is built
    with \<open>chunksize=-1\<close>, so the file goes in one chunk; the loop over
    \<open>request.next_chunk()\<close> is taken to come to an end, with the id of the response or, for
    \<open>None\<close>, with an exception.
  \<^item> \<open>json_dump\<close>: how \<open>open\<close> and \<open>json.dump\<close> of a history end.
\<close>

record env =
  TIKTOK_USERNAME :: str
  makedirs_ok :: bool
  extract_info :: "entry list option option"
  path_exists :: "event list \<Rightarrow> str \<Rightarrow> bool"
  ydl_download :: "event list \<Rightarrow> str \<Rightarrow> str \<Rightarrow> bool"
  youtube_service_ok :: bool
  next_chunk :: "event list \<Rightarrow> str \<Rightarrow> body \<Rightarrow> str option"
  json_dump :: "event list \<Rightarrow> history \<Rightarrow> save_result"

section \<open>Progress store\<close>

definition load_uploaded_history :: "store_file \<Rightarrow> error + history" where
  "load_uploaded_history f =
     (case f of
        Document h \<Rightarrow> Inr h
      | Unparseable \<Rightarrow> Inl JSONDecodeError
      | Missing \<Rightarrow> Inr \<lparr>current_index = Some 0, uploaded_ids = Some []\<rparr>)"

definition save_uploaded_history :: "env \<Rightarrow> history \<Rightarrow> world \<Rightarrow> error option \<times> world" where
  "save_uploaded_history e h w =
     (let r = json_dump e (trace w) h
      in (case r of Saved \<Rightarrow> None | OpenFailed \<Rightarrow> Some OSError | WriteFailed \<Rightarrow> Some OSError,
          \<lparr>store = (case r of Saved \<Rightarrow> Document h | OpenFailed \<Rightarrow> store w
                             | WriteFailed \<Rightarrow> Unparseable),
           trace = trace w @ [Save h r]\<rparr>))"

section \<open>Source collaborator\<close>

definition entry_video :: "str \<Rightarrow> entry \<Rightarrow> video" where
  "entry_video user en =
     \<lparr>video_id = (case entry_id en of None \<Rightarrow> ascii ''unknown'' | Some i \<Rightarrow> i),
      video_title = (case entry_title en of None \<Rightarrow> ascii ''TikTok Video'' | Some t \<Rightarrow> t),
      video_url =
        (if entry_url en \<noteq> None \<and> entry_url en \<noteq> Some [] then the (entry_url en)
         else if entry_webpage_url en \<noteq> None \<and> entry_webpage_url en \<noteq> Some []
           then the (entry_webpage_url en)
         else ascii ''https://www.tiktok.com/@'' @ user @ ascii ''/video/''
                @ (case entry_id en of None \<Rightarrow> ascii ''None'' | Some i \<Rightarrow> i)),
      video_description = None\<rparr>"

definition get_all_tiktok_videos :: "env \<Rightarrow> video list" where
  "get_all_tiktok_videos e =
     (case extract_info e of
        None \<Rightarrow> []
      | Some None \<Rightarrow> []
      | Some (Some entries) \<Rightarrow> rev (map (entry_video (TIKTOK_USERNAME e)) entries))"

definition output_file :: "str \<Rightarrow> str" where
  "output_file vid = ascii ''tiktok_videos/tiktok_'' @ vid @ ascii ''.mp4''"

definition download_tiktok_video :: "env \<Rightarrow> video \<Rightarrow> world \<Rightarrow> str option \<times> world" where
  "download_tiktok_video e v w =
     (if path_exists e (trace w) (output_file (video_id v)) then (Some (output_file (video_id v)), w)
      else
        (let ok = ydl_download e (trace w) (video_url v) (output_file (video_id v));
             w' = w\<lparr>trace := trace w @ [Download (video_url v) (output_file (video_id v)) ok]\<rparr>
         in (if ok then Some (output_file (video_id v)) else None, w')))"

section \<open>Publisher collaborator\<close>

definition description_suffix :: str where
  "description_suffix =
     [10, 10, 128241] @ ascii '' Share and subscribe'' @ [10] @ ascii ''#Shorts''"

definition upload_body :: "env \<Rightarrow> str \<Rightarrow> str \<Rightarrow> body" where
  "upload_body e title description =
     \<lparr>snippet_title = (if length title > 100 then take 97 title @ ascii ''...'' else title),
      snippet_description = description @ description_suffix,
      snippet_tags = [ascii ''TikTok'', ascii ''shorts'', TIKTOK_USERNAME e],
      snippet_categoryId = ascii ''22'',
      status_privacyStatus = ascii ''public'',
      status_selfDeclaredMadeForKids = False\<rparr>"

definition upload_to_youtube ::
    "env \<Rightarrow> str \<Rightarrow> str \<Rightarrow> str \<Rightarrow> world \<Rightarrow> str option \<times> world" where
  "upload_to_youtube e video_file title description w =
     (let b = upload_body e title description;
          r = next_chunk e (trace w) video_file b
      in (r, w\<lparr>trace := trace w @ [Upload video_file b r]\<rparr>))"

section \<open>Transfer pipeline\<close>

text \<open>Python's \<open>xs[i:]\<close> and \<open>xs[i]\<close>: a negative index counts from the end.\<close>

definition py_slice_from :: "'a list \<Rightarrow> int \<Rightarrow> 'a list" where
  "py_slice_from xs i =
     (if 0 \<le> i then drop (nat i) xs else drop (nat (int (length xs) + i)) xs)"

definition py_index :: "'a list \<Rightarrow> int \<Rightarrow> error + 'a" where
  "py_index xs i =
     (if 0 \<le> i \<and> i < int (length xs) then Inr (xs ! nat i)
      else if i < 0 \<and> - int (length xs) \<le> i then Inr (xs ! nat (int (length xs) + i))
      else Inl IndexError)"

definition videos_to_process :: "bool \<Rightarrow> video list \<Rightarrow> int \<Rightarrow> error + video list" where
  "videos_to_process upload_all all_videos cur =
     (if upload_all then Inr (py_slice_from all_videos cur)
      else (case py_index all_videos cur of Inl err \<Rightarrow> Inl err | Inr v \<Rightarrow> Inr [v]))"

text \<open>\<open>video_to_upload.get('description', 'Check out my other content!')\<close>\<close>

definition fallback_description :: str where
  "fallback_description = ascii ''Check out my other content!''"

definition get_description :: "video \<Rightarrow> str" where
  "get_description v =
     (case video_description v of None \<Rightarrow> fallback_description | Some d \<Rightarrow> d)"

text \<open>
  The variables of \<open>main\<close> that the loop updates: the dict \<open>history\<close>, the list bound to
  the local \<open>uploaded_ids\<close> (field \<open>ids\<close>), the two counters, and the outside world. When the
  loaded dict has the key \<open>uploaded_ids\<close>, the local is that very list object, and
  \<open>append\<close> changes both; the assignment that follows the \<open>append\<close> in the source stores the
  list under the key in every case, so the model updates the two together.
\<close>

record frame =
  history :: history
  ids :: "str list"
  successful_uploads :: nat
  failed_uploads :: nat
  world :: world

text \<open>
  One iteration of the \<open>for\<close> loop, for the item \<open>v\<close> at position \<open>idx\<close> of a window of
  \<open>n\<close> items; \<open>cur\<close> is the local \<open>current_index\<close>. The first component is the exception
  that leaves the loop, if any. The \<open>try\<close> block encloses the upload, the update of the
  history and its save, so \<open>except Exception\<close> also catches a failing save there; the save
  of the already-uploaded branch is outside any \<open>try\<close>.
\<close>

definition loop_body ::
    "env \<Rightarrow> bool \<Rightarrow> int \<Rightarrow> nat \<Rightarrow> nat \<Rightarrow> video \<Rightarrow> frame \<Rightarrow> error option \<times> frame" where
  "loop_body e upload_all cur n idx v s =
     (let actual_index = cur + int idx
      in if video_id v \<in> set (ids s) then
           (let h = (history s)\<lparr>current_index := Some (actual_index + 1)\<rparr>;
                (r, w) = save_uploaded_history e h (world s)
            in (r, s\<lparr>history := h, world := w\<rparr>))
         else
           (case download_tiktok_video e v (world s) of
              (None, w) \<Rightarrow> (None, s\<lparr>failed_uploads := failed_uploads s + 1, world := w\<rparr>)
            | (Some video_file, w) \<Rightarrow>
                (case upload_to_youtube e video_file (video_title v) (get_description v) w of
                   (None, w1) \<Rightarrow>
                     (None, s\<lparr>failed_uploads := failed_uploads s + 1, world := w1\<rparr>)
                 | (Some youtube_id, w1) \<Rightarrow>
                     (let ids' = ids s @ [video_id v];
                          h = (history s)\<lparr>uploaded_ids := Some ids',
                                            current_index := Some (actual_index + 1)\<rparr>
                      in (case save_uploaded_history e h w1 of
                            (Some err, w2) \<Rightarrow>
                              (None, s\<lparr>history := h, ids := ids',
                                       failed_uploads := failed_uploads s + 1, world := w2\<rparr>)
                          | (None, w2) \<Rightarrow>
                              (None, s\<lparr>history := h, ids := ids',
                                       successful_uploads := successful_uploads s + 1,
                                       world := (if upload_all \<and> int idx < int n - 1
                                                 then w2\<lparr>trace := trace w2 @ [Sleep 10]\<rparr>
                                                 else w2)\<rparr>))))))"

fun for_loop ::
    "env \<Rightarrow> bool \<Rightarrow> int \<Rightarrow> nat \<Rightarrow> nat \<Rightarrow> video list \<Rightarrow> frame \<Rightarrow> error option \<times> frame" where
  "for_loop e upload_all cur n idx [] s = (None, s)"
| "for_loop e upload_all cur n idx (v # vs) s =
     (case loop_body e upload_all cur n idx v s of
        (Some err, s') \<Rightarrow> (Some err, s')
      | (None, s') \<Rightarrow> for_loop e upload_all cur n (Suc idx) vs s')"

text \<open>
  What a pass that returns has printed last: one of the two early messages, or the final
  summary with the two counters, the progress line \<open>history['current_index']/len(all_videos)\<close>
  and, unless that index has reached the length, the remaining count.
\<close>

record summary =
  successful :: nat
  failed :: nat
  progress :: int
  total :: nat
  remaining :: "int option"

datatype report = NoVideos | AllUploaded nat | Summary summary

definition final_summary :: "frame \<Rightarrow> nat \<Rightarrow> error + report" where
  "final_summary s len =
     (case current_index (history s) of
        None \<Rightarrow> Inl KeyError
      | Some c \<Rightarrow>
          Inr (Summary \<lparr>successful = successful_uploads s, failed = failed_uploads s,
                         progress = c, total = len,
                         remaining = (if c \<ge> int len then None else Some (int len - c))\<rparr>))"

text \<open>
  \<open>main\<close> from the comment \<open># Get all TikTok videos\<close> on, with the three locals that the
  lines before it bind (\<open>history\<close>, \<open>current_index\<close>, \<open>uploaded_ids\<close>) as parameters.
\<close>

definition main_from ::
    "bool \<Rightarrow> env \<Rightarrow> history \<Rightarrow> int \<Rightarrow> str list \<Rightarrow> world \<Rightarrow> (error + report) \<times> world" where
  "main_from upload_all e h cur uploaded w =
     (let all_videos = get_all_tiktok_videos e
      in if all_videos = [] then (Inr NoVideos, w)
         else if cur \<ge> int (length all_videos) then (Inr (AllUploaded (length all_videos)), w)
         else if \<not> youtube_service_ok e then (Inl AuthError, w)
         else
           (case videos_to_process upload_all all_videos cur of
              Inl err \<Rightarrow> (Inl err, w)
            | Inr vs \<Rightarrow>
                (case for_loop e upload_all cur (length vs) 0 vs
                        \<lparr>history = h, ids = uploaded, successful_uploads = 0,
                         failed_uploads = 0, world = w\<rparr> of
                   (Some err, s) \<Rightarrow> (Inl err, world s)
                 | (None, s) \<Rightarrow> (final_summary s (length all_videos), world s))))"

text \<open>
  The entry point: \<open>setup_directories\<close> (its \<open>os.makedirs\<close> may raise), the load of the
  history, and the two \<open>history.get\<close> calls with their defaults.
\<close>

definition main :: "bool \<Rightarrow> env \<Rightarrow> world \<Rightarrow> (error + report) \<times> world" where
  "main upload_all e w =
     (if \<not> makedirs_ok e then (Inl OSError, w)
      else
        (case load_uploaded_history (store w) of
           Inl err \<Rightarrow> (Inl err, w)
         | Inr h \<Rightarrow>
             main_from upload_all e h
               (case current_index h of None \<Rightarrow> 0 | Some c \<Rightarrow> c)
               (case uploaded_ids h of None \<Rightarrow> [] | Some l \<Rightarrow> l) w))"

text \<open>
  Successive invocations (the scheduler of the \<open>__main__\<close> block runs one pass per day):
  each with its own mode and collaborators, on the world the previous one left. An
  exception ends a pass, not the sequence.
\<close>

fun passes :: "(bool \<times> env) list \<Rightarrow> world \<Rightarrow> world" where
  "passes [] w = w"
| "passes ((upload_all, e) # ps) w = passes ps (snd (main upload_all e w))"

section \<open>Observations on stores and traces\<close>

text \<open>
  The cursor and the completed ids as the next pass would read them from the store:
  \<open>load_uploaded_history\<close> followed by the two \<open>get\<close> calls of \<open>main\<close>. An unparseable
  file has neither.
\<close>

definition cursor_of :: "history \<Rightarrow> int" where
  "cursor_of h = (case current_index h of None \<Rightarrow> 0 | Some c \<Rightarrow> c)"

definition ids_of :: "history \<Rightarrow> str list" where
  "ids_of h = (case uploaded_ids h of None \<Rightarrow> [] | Some l \<Rightarrow> l)"

definition persisted_cursor :: "store_file \<Rightarrow> int option" where
  "persisted_cursor f =
     (case load_uploaded_history f of Inl err \<Rightarrow> None | Inr h \<Rightarrow> Some (cursor_of h))"

definition persisted_ids :: "store_file \<Rightarrow> str set" where
  "persisted_ids f =
     (case load_uploaded_history f of Inl err \<Rightarrow> {} | Inr h \<Rightarrow> set (ids_of h))"

text \<open>The store after a save, by its outcome.\<close>

definition store_after :: "store_file \<Rightarrow> history \<Rightarrow> save_result \<Rightarrow> store_file" where
  "store_after f h sr = (case sr of Saved \<Rightarrow> Document h | OpenFailed \<Rightarrow> f | WriteFailed \<Rightarrow> Unparseable)"

text \<open>The store keeps the id \<open>x\<close>, or has become unreadable.\<close>

definition keeps :: "str \<Rightarrow> store_file \<Rightarrow> bool" where
  "keeps x f \<longleftrightarrow> f = Unparseable \<or> x \<in> persisted_ids f"

text \<open>An event that materializes or publishes the item with id \<open>x\<close>.\<close>

fun touches :: "str \<Rightarrow> event \<Rightarrow> bool" where
  "touches x (Download u f ok) = (f = output_file x)"
| "touches x (Upload f b r) = (f = output_file x)"
| "touches x (Save h r) = False"
| "touches x (Sleep n) = False"

text \<open>The descriptions of the upload requests in a trace, in order.\<close>

definition upload_descriptions :: "event list \<Rightarrow> str list" where
  "upload_descriptions t =
     concat (map (\<lambda>ev. case ev of Upload f b r \<Rightarrow> [snippet_description b] | _ \<Rightarrow> []) t)"

text \<open>The histories handed to \<open>save_uploaded_history\<close> in a trace, in order.\<close>

definition saved_histories :: "event list \<Rightarrow> history list" where
  "saved_histories t = concat (map (\<lambda>ev. case ev of Save h sr \<Rightarrow> [h] | _ \<Rightarrow> []) t)"

text \<open>
  The history \<open>h\<close> records the item at some position \<open>j\<close> of the window \<open>vs\<close>, whose first
  item has enumeration index \<open>base\<close>: its cursor is that item's index plus one, the item's
  id is among its ids, and the id was among \<open>ids0\<close> or an upload of the item's file has
  returned a response in the trace \<open>t\<close>.
\<close>

definition records :: "int \<Rightarrow> video list \<Rightarrow> str list \<Rightarrow> event list \<Rightarrow> history \<Rightarrow> bool" where
  "records base vs ids0 t h \<longleftrightarrow>
     (\<exists>j < length vs.
        current_index h = Some (base + int j + 1)
        \<and> video_id (vs ! j) \<in> set (ids_of h)
        \<and> (video_id (vs ! j) \<in> set ids0
            \<or> (\<exists>b y. Upload (output_file (video_id (vs ! j))) b (Some y) \<in> set t)))"


fun is_published :: "event \<Rightarrow> bool" where
  "is_published (Upload f b r) = (r \<noteq> None)"
| "is_published ev = False"


definition count_events :: "(event \<Rightarrow> bool) \<Rightarrow> world \<Rightarrow> nat" where
  "count_events P w = length (filter P (trace w))"

text \<open>No download, upload or save of the pass fails.\<close>

definition no_failures :: "env \<Rightarrow> bool" where
  "no_failures e \<longleftrightarrow>
     (\<forall>t u f. path_exists e t f \<or> ydl_download e t u f)
     \<and> (\<forall>t f b. next_chunk e t f b \<noteq> None)
     \<and> (\<forall>t h. json_dump e t h = Saved)"

section \<open>Example scenarios\<close>

text \<open>
  A source account with the three videos A, B, C (the extractor lists the newest first),
  and collaborators that never fail. The scenarios below vary single fields of it.
\<close>

definition example_entry :: "string \<Rightarrow> entry" where
  "example_entry i =
     \<lparr>entry_id = Some (ascii i), entry_title = Some (ascii i), entry_url = Some (ascii i),
      entry_webpage_url = None\<rparr>"

definition example_env :: env where
  "example_env =
     \<lparr>TIKTOK_USERNAME = ascii ''user'', makedirs_ok = True,
      extract_info = Some (Some [example_entry ''C'', example_entry ''B'', example_entry ''A'']),
      path_exists = (\<lambda>_ _. False), ydl_download = (\<lambda>_ _ _. True), youtube_service_ok = True,
      next_chunk = (\<lambda>_ _ _. Some (ascii ''yt'')), json_dump = (\<lambda>_ _. Saved)\<rparr>"

definition example_video :: "string \<Rightarrow> video" where
  "example_video i = entry_video (ascii ''user'') (example_entry i)"

definition fresh_world :: world where
  "fresh_world = \<lparr>store = Missing, trace = []\<rparr>"

text \<open>The record \<open>{cursor: 1, completed_ids: {A}}\<close> of the spec's scenarios.\<close>

definition example_history :: history where
  "example_history = \<lparr>current_index = Some 1, uploaded_ids = Some [ascii ''A'']\<rparr>"

definition example_frame :: frame where
  "example_frame =
     \<lparr>history = example_history, ids = [ascii ''A''], successful_uploads = 0,
      failed_uploads = 0, world = \<lparr>store = Document example_history, trace = []\<rparr>\<rparr>"

section \<open>Observations on the persisted state\<close>

text \<open>A history file holding the empty object \<open>{}\<close>.\<close>

definition bare_world :: world where
  "bare_world = \<lparr>store = Document \<lparr>current_index = None, uploaded_ids = None\<rparr>, trace = []\<rparr>"

text \<open>
  A record whose cursor lags its completed ids, as a crash between the two updates would
  leave it.
\<close>

definition lagging_history :: history where
  "lagging_history = \<lparr>current_index = Some 0, uploaded_ids = Some [ascii ''A'']\<rparr>"

definition lagging_frame :: frame where
  "lagging_frame =
     \<lparr>history = lagging_history, ids = [ascii ''A''], successful_uploads = 0,
      failed_uploads = 0, world = \<lparr>store = Document lagging_history, trace = []\<rparr>\<rparr>"



text \<open>Collaborators that never fail, except that a history with cursor 1 cannot be saved.\<close>

definition first_save_fails_env :: env where
  "first_save_fails_env =
     example_env\<lparr>json_dump := \<lambda>t h. if current_index h = Some 1 then OpenFailed else Saved\<rparr>"

text \<open>Collaborators that never fail, except that the download of A raises.\<close>

definition download_fails_env :: env where
  "download_fails_env = example_env\<lparr>ydl_download := \<lambda>t u f. u \<noteq> ascii ''A''\<rparr>"

section \<open>Basic facts\<close>

subsection \<open>The examples\<close>

lemma example_videos:
  "get_all_tiktok_videos example_env = [example_video ''A'', example_video ''B'', example_video ''C'']"
  by (simp add: get_all_tiktok_videos_def example_env_def example_video_def)

lemma example_video_simps:
  "video_id (example_video i) = ascii i"
  "video_title (example_video i) = ascii i"
  "i \<noteq> [] \<Longrightarrow> video_url (example_video i) = ascii i"
  "video_description (example_video i) = None"
  by (simp_all add: example_video_def example_entry_def entry_video_def ascii_def)

lemma ascii_neq:
  "ascii ''A'' \<noteq> ascii ''B''" "ascii ''A'' \<noteq> ascii ''C''" "ascii ''B'' \<noteq> ascii ''C''"
  "ascii ''B'' \<noteq> ascii ''A''" "ascii ''C'' \<noteq> ascii ''A''" "ascii ''C'' \<noteq> ascii ''B''"
  by (simp_all add: ascii_def)

lemma example_env_simps:
  "TIKTOK_USERNAME example_env = ascii ''user''" "makedirs_ok example_env"
  "youtube_service_ok example_env" "path_exists example_env = (\<lambda>_ _. False)"
  "ydl_download example_env = (\<lambda>_ _ _. True)" "next_chunk example_env = (\<lambda>_ _ _. Some (ascii ''yt''))"
  "json_dump example_env = (\<lambda>_ _. Saved)"
  by (simp_all add: example_env_def)

lemma first_save_fails_env_simps:
  "TIKTOK_USERNAME first_save_fails_env = ascii ''user''" "makedirs_ok first_save_fails_env"
  "youtube_service_ok first_save_fails_env" "path_exists first_save_fails_env = (\<lambda>_ _. False)"
  "ydl_download first_save_fails_env = (\<lambda>_ _ _. True)"
  "next_chunk first_save_fails_env = (\<lambda>_ _ _. Some (ascii ''yt''))"
  "json_dump first_save_fails_env = (\<lambda>t h. if current_index h = Some 1 then OpenFailed else Saved)"
  "get_all_tiktok_videos first_save_fails_env = get_all_tiktok_videos example_env"
  by (simp_all add: first_save_fails_env_def example_env_def get_all_tiktok_videos_def)

lemma download_fails_env_simps:
  "TIKTOK_USERNAME download_fails_env = ascii ''user''" "makedirs_ok download_fails_env"
  "youtube_service_ok download_fails_env" "path_exists download_fails_env = (\<lambda>_ _. False)"
  "ydl_download download_fails_env = (\<lambda>t u f. u \<noteq> ascii ''A'')"
  "next_chunk download_fails_env = (\<lambda>_ _ _. Some (ascii ''yt''))"
  "json_dump download_fails_env = (\<lambda>_ _. Saved)"
  "get_all_tiktok_videos download_fails_env = get_all_tiktok_videos example_env"
  by (simp_all add: download_fails_env_def example_env_def get_all_tiktok_videos_def)

lemmas eval_defs = main_def main_from_def load_uploaded_history_def example_videos example_video_simps
  videos_to_process_def py_index_def py_slice_from_def loop_body_def download_tiktok_video_def
  upload_to_youtube_def save_uploaded_history_def final_summary_def Let_def ascii_neq get_description_def

subsection \<open>One iteration, by cases\<close>

lemma download_cases [consumes 1, case_names cached fetched failed]:
  assumes "download_tiktok_video e v w = (r, w1)"
  obtains
    (cached) "path_exists e (trace w) (output_file (video_id v))"
      "r = Some (output_file (video_id v))" "w1 = w"
  | (fetched) "\<not> path_exists e (trace w) (output_file (video_id v))"
      "r = Some (output_file (video_id v))"
      "w1 = w\<lparr>trace := trace w @ [Download (video_url v) (output_file (video_id v)) True]\<rparr>"
      "ydl_download e (trace w) (video_url v) (output_file (video_id v))"
  | (failed) "\<not> path_exists e (trace w) (output_file (video_id v))"
      "r = None"
      "w1 = w\<lparr>trace := trace w @ [Download (video_url v) (output_file (video_id v)) False]\<rparr>"
      "\<not> ydl_download e (trace w) (video_url v) (output_file (video_id v))"
  using assms by (auto simp: download_tiktok_video_def Let_def split: if_splits)

lemma loop_body_cases [consumes 1, case_names skip download_failed upload_failed save_failed published]:
  assumes "loop_body e upload_all cur n idx v s = (r, s')"
  obtains
    (skip) h sr where "video_id v \<in> set (ids s)"
      "h = (history s)\<lparr>current_index := Some (cur + int idx + 1)\<rparr>"
      "sr = json_dump e (trace (world s)) h"
      "r = (if sr = Saved then None else Some OSError)"
      "s' = s\<lparr>history := h,
                world := \<lparr>store = store_after (store (world s)) h sr,
                          trace = trace (world s) @ [Save h sr]\<rparr>\<rparr>"
  | (download_failed) w1 where "video_id v \<notin> set (ids s)"
      "download_tiktok_video e v (world s) = (None, w1)"
      "r = None" "s' = s\<lparr>failed_uploads := failed_uploads s + 1, world := w1\<rparr>"
  | (upload_failed) f w1 b where "video_id v \<notin> set (ids s)"
      "download_tiktok_video e v (world s) = (Some f, w1)"
      "b = upload_body e (video_title v) (get_description v)"
      "next_chunk e (trace w1) f b = None"
      "r = None"
      "s' = s\<lparr>failed_uploads := failed_uploads s + 1,
                world := w1\<lparr>trace := trace w1 @ [Upload f b None]\<rparr>\<rparr>"
  | (save_failed) f w1 b y h sr where "video_id v \<notin> set (ids s)"
      "download_tiktok_video e v (world s) = (Some f, w1)"
      "b = upload_body e (video_title v) (get_description v)"
      "next_chunk e (trace w1) f b = Some y"
      "h = (history s)\<lparr>uploaded_ids := Some (ids s @ [video_id v]),
                         current_index := Some (cur + int idx + 1)\<rparr>"
      "sr = json_dump e (trace w1 @ [Upload f b (Some y)]) h" "sr \<noteq> Saved"
      "r = None"
      "s' = s\<lparr>history := h, ids := ids s @ [video_id v],
                failed_uploads := failed_uploads s + 1,
                world := \<lparr>store = store_after (store w1) h sr,
                          trace = trace w1 @ [Upload f b (Some y), Save h sr]\<rparr>\<rparr>"
  | (published) f w1 b y h where "video_id v \<notin> set (ids s)"
      "download_tiktok_video e v (world s) = (Some f, w1)"
      "b = upload_body e (video_title v) (get_description v)"
      "next_chunk e (trace w1) f b = Some y"
      "h = (history s)\<lparr>uploaded_ids := Some (ids s @ [video_id v]),
                         current_index := Some (cur + int idx + 1)\<rparr>"
      "json_dump e (trace w1 @ [Upload f b (Some y)]) h = Saved"
      "r = None"
      "s' = s\<lparr>history := h, ids := ids s @ [video_id v],
                successful_uploads := successful_uploads s + 1,
                world := \<lparr>store = Document h,
                          trace = trace w1 @ [Upload f b (Some y), Save h Saved]
                                  @ (if upload_all \<and> int idx < int n - 1 then [Sleep 10] else [])\<rparr>\<rparr>"
proof (cases "video_id v \<in> set (ids s)")
  case True
  let ?h = "(history s)\<lparr>current_index := Some (cur + int idx + 1)\<rparr>"
  have "loop_body e upload_all cur n idx v s
          = (if json_dump e (trace (world s)) ?h = Saved then None else Some OSError,
             s\<lparr>history := ?h,
               world := \<lparr>store = store_after (store (world s)) ?h (json_dump e (trace (world s)) ?h),
                         trace = trace (world s) @ [Save ?h (json_dump e (trace (world s)) ?h)]\<rparr>\<rparr>)"
    using True
    by (cases "json_dump e (trace (world s)) ?h")
       (simp_all add: loop_body_def save_uploaded_history_def store_after_def Let_def)
  with assms True show ?thesis
    by (intro skip [OF True refl refl]) simp_all
next
  case notin: False
  obtain d w1 where d: "download_tiktok_video e v (world s) = (d, w1)"
    by (cases "download_tiktok_video e v (world s)")
  show ?thesis
  proof (cases d)
    case None
    with assms notin d show ?thesis
      by (intro download_failed [of w1]) (simp_all add: loop_body_def)
  next
    case (Some f)
    let ?b = "upload_body e (video_title v) (get_description v)"
    show ?thesis
    proof (cases "next_chunk e (trace w1) f ?b")
      case None
      with assms notin d Some show ?thesis
        by (intro upload_failed [of f w1 ?b]) (simp_all add: loop_body_def upload_to_youtube_def Let_def)
    next
      case y: (Some y)
      let ?h = "(history s)\<lparr>uploaded_ids := Some (ids s @ [video_id v]),
                         current_index := Some (cur + int idx + 1)\<rparr>"
      let ?sr = "json_dump e (trace w1 @ [Upload f ?b (Some y)]) ?h"
      show ?thesis
      proof (cases "?sr = Saved")
        case True
        have "loop_body e upload_all cur n idx v s
                = (None, s\<lparr>history := ?h, ids := ids s @ [video_id v],
                     successful_uploads := successful_uploads s + 1,
                     world := \<lparr>store = Document ?h,
                          trace = trace w1 @ [Upload f ?b (Some y), Save ?h Saved]
                                  @ (if upload_all \<and> int idx < int n - 1 then [Sleep 10] else [])\<rparr>\<rparr>)"
          using notin d Some y True
          by (simp add: loop_body_def upload_to_youtube_def save_uploaded_history_def Let_def)
        with assms notin d Some y True show ?thesis
          by (intro published [of f w1 ?b y ?h]) simp_all
      next
        case False
        have "loop_body e upload_all cur n idx v s
                = (None, s\<lparr>history := ?h, ids := ids s @ [video_id v],
                     failed_uploads := failed_uploads s + 1,
                     world := \<lparr>store = store_after (store w1) ?h ?sr,
                          trace = trace w1 @ [Upload f ?b (Some y), Save ?h ?sr]\<rparr>\<rparr>)"
          using notin d Some y False
          by (cases ?sr)
             (simp_all add: loop_body_def upload_to_youtube_def save_uploaded_history_def
                store_after_def Let_def)
        with assms notin d Some y False show ?thesis
          by (intro save_failed [of f w1 ?b y ?h ?sr]) simp_all
      qed
    qed
  qed
qed

subsection \<open>Recorded items are left alone\<close>

lemma output_file_inj: "output_file a = output_file b \<longleftrightarrow> a = b"
  by (simp add: output_file_def)

lemma download_no_touch:
  assumes "download_tiktok_video e v w = (r, w1)" and "video_id v \<noteq> x"
  shows "filter (touches x) (trace w1) = filter (touches x) (trace w)"
  using assms by (cases rule: download_cases) (simp_all add: output_file_inj)

lemma download_file:
  assumes "download_tiktok_video e v w = (Some f, w1)"
  shows "f = output_file (video_id v)"
  using assms by (cases rule: download_cases) simp_all

lemma download_store_eq:
  assumes "download_tiktok_video e v w = (r, w1)"
  shows "store w1 = store w"
  using assms by (cases rule: download_cases) simp_all

lemma loop_body_no_touch:
  assumes "loop_body e upload_all cur n idx v s = (r, s')" and "x \<in> set (ids s)"
  shows "x \<in> set (ids s') \<and> filter (touches x) (trace (world s')) = filter (touches x) (trace (world s))"
  using assms(1)
proof (cases rule: loop_body_cases)
  case (skip h sr)
  with assms(2) show ?thesis by simp
next
  case (download_failed w1)
  with assms(2) download_no_touch [OF download_failed(2), of x] show ?thesis by auto
next
  case (upload_failed f w1 b)
  with assms(2) download_no_touch [OF upload_failed(2), of x] download_file [OF upload_failed(2)]
  show ?thesis by (auto simp: output_file_inj)
next
  case (save_failed f w1 b y h sr)
  with assms(2) download_no_touch [OF save_failed(2), of x] download_file [OF save_failed(2)]
  show ?thesis by (auto simp: output_file_inj)
next
  case (published f w1 b y h)
  with assms(2) download_no_touch [OF published(2), of x] download_file [OF published(2)]
  show ?thesis by (auto simp: output_file_inj)
qed

lemma for_loop_no_touch:
  assumes "for_loop e upload_all cur n idx vs s = (r, s')" and "x \<in> set (ids s)"
  shows "x \<in> set (ids s') \<and> filter (touches x) (trace (world s')) = filter (touches x) (trace (world s))"
  using assms
proof (induction vs arbitrary: idx s)
  case Nil
  then show ?case by simp
next
  case (Cons v vs)
  obtain r1 s1 where step: "loop_body e upload_all cur n idx v s = (r1, s1)"
    by (cases "loop_body e upload_all cur n idx v s")
  note one = loop_body_no_touch [OF step Cons.prems(2)]
  show ?case
  proof (cases r1)
    case None
    with step Cons.prems(1) have "for_loop e upload_all cur n (Suc idx) vs s1 = (r, s')" by simp
    from Cons.IH [OF this] one show ?thesis by simp
  next
    case (Some err)
    with step Cons.prems(1) one show ?thesis by simp
  qed
qed

lemma keeps_store_after:
  "keeps x f \<Longrightarrow> x \<in> set (ids_of h) \<Longrightarrow> keeps x (store_after f h sr)"
  by (cases sr) (simp_all add: keeps_def store_after_def persisted_ids_def load_uploaded_history_def)

lemma loop_body_keeps:
  assumes "loop_body e upload_all cur n idx v s = (r, s')"
      and "x \<in> set (ids s)" and "uploaded_ids (history s) = Some (ids s)"
      and "keeps x (store (world s))"
  shows "uploaded_ids (history s') = Some (ids s') \<and> keeps x (store (world s'))"
  using assms(1)
proof (cases rule: loop_body_cases)
  case (skip h sr)
  with assms(2-4) keeps_store_after [of x "store (world s)" h sr] show ?thesis
    by (simp add: ids_of_def)
next
  case (download_failed w1)
  with assms(2-4) download_store_eq [OF download_failed(2)] show ?thesis by simp
next
  case (upload_failed f w1 b)
  with assms(2-4) download_store_eq [OF upload_failed(2)] show ?thesis by simp
next
  case (save_failed f w1 b y h sr)
  with assms(2-4) download_store_eq [OF save_failed(2)] keeps_store_after [of x "store w1" h sr]
  show ?thesis by (simp add: ids_of_def)
next
  case (published f w1 b y h)
  with assms(2-4) show ?thesis
    by (simp add: keeps_def persisted_ids_def load_uploaded_history_def ids_of_def)
qed

lemma for_loop_keeps:
  assumes "for_loop e upload_all cur n idx vs s = (r, s')"
      and "x \<in> set (ids s)" and "uploaded_ids (history s) = Some (ids s)"
      and "keeps x (store (world s))"
  shows "keeps x (store (world s'))"
proof -
  have "x \<in> set (ids s') \<and> uploaded_ids (history s') = Some (ids s') \<and> keeps x (store (world s'))"
    using assms
  proof (induction vs arbitrary: idx s)
    case Nil
    then show ?case by simp
  next
    case (Cons v vs)
    obtain r1 s1 where step: "loop_body e upload_all cur n idx v s = (r1, s1)"
      by (cases "loop_body e upload_all cur n idx v s")
    note a = loop_body_no_touch [OF step Cons.prems(2)]
    note b = loop_body_keeps [OF step Cons.prems(2-4)]
    show ?case
    proof (cases r1)
      case None
      with step Cons.prems(1) have "for_loop e upload_all cur n (Suc idx) vs s1 = (r, s')" by simp
      from Cons.IH [OF this] a b show ?thesis by simp
    next
      case (Some err)
      with step Cons.prems(1) a b show ?thesis by simp
    qed
  qed
  then show ?thesis by simp
qed

lemma main_keeps:
  assumes "keeps x (store w)"
  shows "keeps x (store (snd (main upload_all e w)))
         \<and> filter (touches x) (trace (snd (main upload_all e w))) = filter (touches x) (trace w)"
proof (cases "store w")
  case Missing
  with assms show ?thesis
    by (simp add: keeps_def persisted_ids_def load_uploaded_history_def ids_of_def)
next
  case Unparseable
  with assms show ?thesis
    by (simp add: main_def load_uploaded_history_def)
next
  case (Document h)
  with assms obtain l where l: "uploaded_ids h = Some l" "x \<in> set l"
    by (cases "uploaded_ids h")
       (simp_all add: keeps_def persisted_ids_def load_uploaded_history_def ids_of_def)
  let ?cur = "case current_index h of None \<Rightarrow> 0 | Some c \<Rightarrow> c"
  let ?s0 = "\<lparr>history = h, ids = l, successful_uploads = 0, failed_uploads = 0, world = w\<rparr>"
  have loop: "keeps x (store (world s')) \<and> filter (touches x) (trace (world s')) = filter (touches x) (trace w)"
    if "for_loop e upload_all ?cur n 0 vs ?s0 = (r, s')" for n vs r s'
    using for_loop_no_touch [OF that, of x] for_loop_keeps [OF that, of x] l assms by simp
  show ?thesis
  proof (cases "makedirs_ok e")
    case False
    with assms show ?thesis by (simp add: main_def)
  next
    case True
    show ?thesis
    proof (cases "videos_to_process upload_all (get_all_tiktok_videos e) ?cur")
      case (Inl err)
      with True Document l assms show ?thesis
        by (simp add: main_def main_from_def load_uploaded_history_def Let_def)
    next
      case (Inr vs)
      obtain r s' where run: "for_loop e upload_all ?cur (length vs) 0 vs ?s0 = (r, s')"
        by (cases "for_loop e upload_all ?cur (length vs) 0 vs ?s0")
      from loop [OF run] run True Document l Inr assms show ?thesis
        by (cases r) (simp_all add: main_def main_from_def load_uploaded_history_def Let_def)
    qed
  qed
qed

lemma passes_keeps:
  assumes "keeps x (store w)"
  shows "keeps x (store (passes ps w))
         \<and> filter (touches x) (trace (passes ps w)) = filter (touches x) (trace w)"
  using assms
proof (induction ps arbitrary: w)
  case Nil
  then show ?case by simp
next
  case (Cons p ps)
  obtain upload_all e where p: "p = (upload_all, e)" by (cases p)
  from main_keeps [OF Cons.prems, of upload_all e] Cons.IH [of "snd (main upload_all e w)"] p
  show ?case by simp
qed

subsection \<open>Descriptions of upload requests\<close>

lemma upload_descriptions_append [simp]:
  "upload_descriptions (t @ u) = upload_descriptions t @ upload_descriptions u"
  by (simp add: upload_descriptions_def)

lemma upload_descriptions_simps [simp]:
  "upload_descriptions [] = []"
  "upload_descriptions (Upload f b r # t) = snippet_description b # upload_descriptions t"
  "upload_descriptions (Download u f ok # t) = upload_descriptions t"
  "upload_descriptions (Save h sr # t) = upload_descriptions t"
  "upload_descriptions (Sleep k # t) = upload_descriptions t"
  by (simp_all add: upload_descriptions_def)

lemma entry_video_description: "video_description (entry_video u en) = None"
  by (simp add: entry_video_def)

lemma enumerated_description: "v \<in> set (get_all_tiktok_videos e) \<Longrightarrow> video_description v = None"
  by (auto simp: get_all_tiktok_videos_def entry_video_description split: option.splits)

lemma py_index_in_set: "py_index xs i = Inr v \<Longrightarrow> v \<in> set xs"
  by (auto simp: py_index_def split: if_splits)

lemma videos_to_process_subset:
  "videos_to_process upload_all all_videos cur = Inr vs \<Longrightarrow> set vs \<subseteq> set all_videos"
  by (auto simp: videos_to_process_def py_slice_from_def dest: in_set_dropD py_index_in_set
        split: if_splits sum.splits)

lemma download_descriptions:
  assumes "download_tiktok_video e v w = (r, w1)"
  shows "upload_descriptions (trace w1) = upload_descriptions (trace w)"
  using assms by (cases rule: download_cases) simp_all

lemma loop_body_descriptions:
  assumes "loop_body e upload_all cur n idx v s = (r, s')" and "video_description v = None"
  shows "\<exists>k. upload_descriptions (trace (world s'))
               = upload_descriptions (trace (world s))
                 @ replicate k (fallback_description @ description_suffix)"
proof -
  let ?D = "fallback_description @ description_suffix"
  have "upload_descriptions (trace (world s')) = upload_descriptions (trace (world s))
        \<or> upload_descriptions (trace (world s')) = upload_descriptions (trace (world s)) @ [?D]"
    using assms(1)
  proof (cases rule: loop_body_cases)
    case (skip h sr)
    then show ?thesis by simp
  next
    case (download_failed w1)
    with download_descriptions [OF download_failed(2)] show ?thesis by simp
  next
    case (upload_failed f w1 b)
    with assms(2) download_descriptions [OF upload_failed(2)] show ?thesis
      by (simp add: upload_body_def get_description_def)
  next
    case (save_failed f w1 b y h sr)
    with assms(2) download_descriptions [OF save_failed(2)] show ?thesis
      by (simp add: upload_body_def get_description_def)
  next
    case (published f w1 b y h)
    with assms(2) download_descriptions [OF published(2)] show ?thesis
      by (simp add: upload_body_def get_description_def)
  qed
  then show ?thesis
  proof
    assume eq: "upload_descriptions (trace (world s')) = upload_descriptions (trace (world s))"
    show ?thesis by (rule exI [of _ 0]) (simp add: eq)
  next
    assume eq: "upload_descriptions (trace (world s')) = upload_descriptions (trace (world s)) @ [?D]"
    show ?thesis by (rule exI [of _ "Suc 0"]) (simp add: eq)
  qed
qed

lemma for_loop_descriptions:
  assumes "for_loop e upload_all cur n idx vs s = (r, s')"
      and "\<forall>v \<in> set vs. video_description v = None"
  shows "\<exists>k. upload_descriptions (trace (world s'))
               = upload_descriptions (trace (world s))
                 @ replicate k (fallback_description @ description_suffix)"
  using assms
proof (induction vs arbitrary: idx s)
  case Nil
  then have eq: "s' = s" by simp
  show ?case by (rule exI [of _ 0]) (simp add: eq)
next
  case (Cons v vs)
  obtain r1 s1 where step: "loop_body e upload_all cur n idx v s = (r1, s1)"
    by (cases "loop_body e upload_all cur n idx v s")
  from Cons.prems(2) have "video_description v = None" by simp
  from loop_body_descriptions [OF step this] obtain k1 where
    k1: "upload_descriptions (trace (world s1))
          = upload_descriptions (trace (world s))
            @ replicate k1 (fallback_description @ description_suffix)"
    by blast
  show ?case
  proof (cases r1)
    case None
    with step Cons.prems(1) have run: "for_loop e upload_all cur n (Suc idx) vs s1 = (r, s')" by simp
    from Cons.prems(2) have "\<forall>v \<in> set vs. video_description v = None" by simp
    from Cons.IH [OF run this] obtain k2 where
      k2: "upload_descriptions (trace (world s'))
          = upload_descriptions (trace (world s1))
            @ replicate k2 (fallback_description @ description_suffix)"
      by blast
    show ?thesis by (rule exI [of _ "k1 + k2"]) (simp add: k1 k2 replicate_add)
  next
    case (Some err)
    with step Cons.prems(1) have "s' = s1" by simp
    with k1 show ?thesis by blast
  qed
qed

subsection \<open>One pass, by cases\<close>

lemma main_cases [consumes 1, case_names early looped]:
  assumes "main upload_all e w = (res, w')"
  obtains
    (early) "w' = w"
  | (looped) h cur vs r s' where
      "load_uploaded_history (store w) = Inr h"
      "cur = (case current_index h of None \<Rightarrow> 0 | Some c \<Rightarrow> c)"
      "get_all_tiktok_videos e \<noteq> []"
      "cur < int (length (get_all_tiktok_videos e))"
      "makedirs_ok e" "youtube_service_ok e"
      "videos_to_process upload_all (get_all_tiktok_videos e) cur = Inr vs"
      "for_loop e upload_all cur (length vs) 0 vs
         \<lparr>history = h, ids = (case uploaded_ids h of None \<Rightarrow> [] | Some l \<Rightarrow> l),
          successful_uploads = 0, failed_uploads = 0, world = w\<rparr> = (r, s')"
      "w' = world s'"
      "res = (case r of Some err \<Rightarrow> Inl err
                      | None \<Rightarrow> final_summary s' (length (get_all_tiktok_videos e)))"
proof (cases "w' = w")
  case True
  then show ?thesis by (rule early)
next
  case False
  with assms have mk: "makedirs_ok e" by (auto simp: main_def split: if_splits)
  with assms False obtain h where h: "load_uploaded_history (store w) = Inr h"
    by (cases "load_uploaded_history (store w)") (auto simp: main_def)
  let ?cur = "case current_index h of None \<Rightarrow> 0 | Some c \<Rightarrow> c"
  let ?ids = "case uploaded_ids h of None \<Rightarrow> [] | Some l \<Rightarrow> l"
  let ?all = "get_all_tiktok_videos e"
  from assms mk h have mf: "main_from upload_all e h ?cur ?ids w = (res, w')"
    by (simp add: main_def)
  with False have ne: "?all \<noteq> []" and lt: "?cur < int (length ?all)" and yt: "youtube_service_ok e"
    by (auto simp: main_from_def Let_def split: if_splits)
  with mf False obtain vs where vs: "videos_to_process upload_all ?all ?cur = Inr vs"
    by (cases "videos_to_process upload_all ?all ?cur") (auto simp: main_from_def Let_def)
  obtain r s' where run: "for_loop e upload_all ?cur (length vs) 0 vs
         \<lparr>history = h, ids = ?ids, successful_uploads = 0, failed_uploads = 0, world = w\<rparr> = (r, s')"
    by (cases "for_loop e upload_all ?cur (length vs) 0 vs
         \<lparr>history = h, ids = ?ids, successful_uploads = 0, failed_uploads = 0, world = w\<rparr>")
  from mf ne lt yt vs run have "w' = world s'"
    and "res = (case r of Some err \<Rightarrow> Inl err | None \<Rightarrow> final_summary s' (length ?all))"
    by (cases r; simp add: main_from_def Let_def)+
  with h ne lt mk yt vs run show ?thesis
    by (intro looped [of h ?cur vs r s']) simp_all
qed

subsection \<open>Windows and the persisted cursor\<close>

lemma window_in_range:
  assumes "0 \<le> cur" and "cur < int (length all_videos)"
  shows "videos_to_process False all_videos cur = Inr [all_videos ! nat cur]"
    and "videos_to_process True all_videos cur = Inr (drop (nat cur) all_videos)"
  using assms by (simp_all add: videos_to_process_def py_index_def py_slice_from_def)

lemma persisted_cursor_store_after:
  "persisted_cursor (store_after f h sr) = Some c \<Longrightarrow>
     persisted_cursor f = Some c \<or> cursor_of h = c"
  by (cases sr) (simp_all add: store_after_def persisted_cursor_def load_uploaded_history_def)

lemma loop_body_cursor_step:
  assumes "loop_body e upload_all cur n idx v s = (r, s')"
      and "persisted_cursor (store (world s')) = Some c'"
  shows "persisted_cursor (store (world s)) = Some c' \<or> c' = cur + int idx + 1"
  using assms(1)
proof (cases rule: loop_body_cases)
  case (skip h sr)
  with assms(2) persisted_cursor_store_after [of "store (world s)" h sr c'] show ?thesis
    by (auto simp: cursor_of_def)
next
  case (download_failed w1)
  with assms(2) download_store_eq [OF download_failed(2)] show ?thesis by simp
next
  case (upload_failed f w1 b)
  with assms(2) download_store_eq [OF upload_failed(2)] show ?thesis by simp
next
  case (save_failed f w1 b y h sr)
  with assms(2) download_store_eq [OF save_failed(2)]
    persisted_cursor_store_after [of "store w1" h sr c'] show ?thesis
    by (auto simp: cursor_of_def)
next
  case (published f w1 b y h)
  with assms(2) show ?thesis
    by (simp add: persisted_cursor_def load_uploaded_history_def cursor_of_def)
qed

lemma main_single_cursor:
  assumes "persisted_cursor (store w) = Some c"
      and "persisted_cursor (store (snd (main False e w))) = Some c'"
  shows "c' = c \<or> c' = c + 1"
proof -
  obtain res w' where m: "main False e w = (res, w')" by (cases "main False e w")
  then show ?thesis
  proof (cases rule: main_cases)
    case early
    with m assms show ?thesis by simp
  next
    case (looped h cur vs r s')
    from looped(7) obtain v where vs: "vs = [v]"
      by (auto simp: videos_to_process_def split: sum.splits)
    from looped(1,2) assms(1) have c: "c = cur"
      by (simp add: persisted_cursor_def cursor_of_def)
    obtain r1 s1 where step: "loop_body e False cur 1 0 v
        \<lparr>history = h, ids = (case uploaded_ids h of None \<Rightarrow> [] | Some l \<Rightarrow> l),
         successful_uploads = 0, failed_uploads = 0, world = w\<rparr> = (r1, s1)"
      by (cases "loop_body e False cur 1 0 v
        \<lparr>history = h, ids = (case uploaded_ids h of None \<Rightarrow> [] | Some l \<Rightarrow> l),
         successful_uploads = 0, failed_uploads = 0, world = w\<rparr>")
    with looped(8) vs have "s' = s1" by (cases r1) simp_all
    with looped(9) m assms(2) have "persisted_cursor (store (world s1)) = Some c'" by simp
    from loop_body_cursor_step [OF step this] assms(1) c show ?thesis by auto
  qed
qed

lemma loop_body_no_failures:
  assumes "loop_body e upload_all cur n idx v s = (r, s')" and "no_failures e"
  shows "r = None \<and> failed_uploads s' = failed_uploads s
         \<and> current_index (history s') = Some (cur + int idx + 1)
         \<and> store (world s') = Document (history s')"
proof -
  from assms(2) have dl: "path_exists e t f \<or> ydl_download e t u f" for t u f
    unfolding no_failures_def by blast
  from assms(2) have up: "next_chunk e t f b \<noteq> None" for t f b
    unfolding no_failures_def by blast
  from assms(2) have sv: "json_dump e t h = Saved" for t h
    unfolding no_failures_def by blast
  from assms(1) show ?thesis
  proof (cases rule: loop_body_cases)
    case (skip h sr)
    with sv show ?thesis by (simp add: store_after_def)
  next
    case (download_failed w1)
    from download_failed(2) dl show ?thesis
      by (cases rule: download_cases) blast+
  next
    case (upload_failed f w1 b)
    with up show ?thesis by blast
  next
    case (save_failed f w1 b y h sr)
    with sv show ?thesis by blast
  next
    case (published f w1 b y h)
    then show ?thesis by simp
  qed
qed

lemma for_loop_no_failures:
  assumes "no_failures e"
  shows "fst (for_loop e upload_all cur n idx vs s) = None
         \<and> failed_uploads (snd (for_loop e upload_all cur n idx vs s)) = failed_uploads s
         \<and> (vs \<noteq> [] \<longrightarrow>
              current_index (history (snd (for_loop e upload_all cur n idx vs s)))
                = Some (cur + int idx + int (length vs))
              \<and> store (world (snd (for_loop e upload_all cur n idx vs s)))
                = Document (history (snd (for_loop e upload_all cur n idx vs s))))"
proof (induction vs arbitrary: idx s)
  case Nil
  show ?case by simp
next
  case (Cons v vs)
  obtain r1 s1 where step: "loop_body e upload_all cur n idx v s = (r1, s1)"
    by (cases "loop_body e upload_all cur n idx v s")
  note one = loop_body_no_failures [OF step assms]
  then have eq: "for_loop e upload_all cur n idx (v # vs) s = for_loop e upload_all cur n (Suc idx) vs s1"
    using step by simp
  show ?case
  proof (cases "vs = []")
    case True
    with one eq show ?thesis by simp
  next
    case False
    with Cons.IH [of "Suc idx" s1] one eq show ?thesis by simp
  qed
qed

lemma main_bulk_no_failures:
  assumes "persisted_cursor (store w) = Some cur" and "0 \<le> cur"
      and "cur < int (length (get_all_tiktok_videos e))"
      and "makedirs_ok e" and "youtube_service_ok e" and "no_failures e"
  shows "persisted_cursor (store (snd (main True e w))) = Some (int (length (get_all_tiktok_videos e)))
         \<and> (\<exists>k. fst (main True e w)
               = Inr (Summary \<lparr>successful = k, failed = 0,
                                 progress = int (length (get_all_tiktok_videos e)),
                                 total = length (get_all_tiktok_videos e), remaining = None\<rparr>))"
proof -
  let ?all = "get_all_tiktok_videos e"
  from assms(1) obtain h where h: "load_uploaded_history (store w) = Inr h" "cursor_of h = cur"
    by (cases "load_uploaded_history (store w)") (auto simp: persisted_cursor_def)
  let ?s0 = "\<lparr>history = h, ids = (case uploaded_ids h of None \<Rightarrow> [] | Some l \<Rightarrow> l),
              successful_uploads = 0, failed_uploads = 0, world = w\<rparr>"
  let ?vs = "drop (nat cur) ?all"
  obtain r s' where run: "for_loop e True cur (length ?vs) 0 ?vs ?s0 = (r, s')"
    by (cases "for_loop e True cur (length ?vs) 0 ?vs ?s0")
  from assms(2,3) have ne: "?vs \<noteq> []" and len: "cur + int (length ?vs) = int (length ?all)"
    by auto
  from for_loop_no_failures [OF assms(6), of True cur "length ?vs" 0 ?vs ?s0] run ne len
  have r: "r = None" and f: "failed_uploads s' = 0"
    and c: "current_index (history s') = Some (int (length ?all))"
    and st: "store (world s') = Document (history s')"
    by simp_all
  from h assms(2-5) run r window_in_range(2) [OF assms(2,3)]
  have m: "main True e w = (final_summary s' (length ?all), world s')"
    by (auto simp: main_def main_from_def cursor_of_def Let_def)
  have "fst (main True e w)
               = Inr (Summary \<lparr>successful = successful_uploads s', failed = 0,
                                 progress = int (length ?all),
                                 total = length ?all, remaining = None\<rparr>)"
    using m f c by (simp add: final_summary_def)
  moreover have "persisted_cursor (store (snd (main True e w))) = Some (int (length ?all))"
    using m st c by (simp add: persisted_cursor_def load_uploaded_history_def cursor_of_def)
  ultimately show ?thesis by blast
qed

subsection \<open>How a pass ends\<close>

lemma main_result_cases
  [consumes 1, case_names setup_failed load_failed no_videos all_uploaded auth_failed index_error looped]:
  assumes "main upload_all e w = (res, w')"
  obtains
    (setup_failed) "\<not> makedirs_ok e" "res = Inl OSError" "w' = w"
  | (load_failed) err where "makedirs_ok e" "load_uploaded_history (store w) = Inl err"
      "res = Inl err" "w' = w"
  | (no_videos) h where "makedirs_ok e" "load_uploaded_history (store w) = Inr h"
      "get_all_tiktok_videos e = []" "res = Inr NoVideos" "w' = w"
  | (all_uploaded) h where "makedirs_ok e" "load_uploaded_history (store w) = Inr h"
      "get_all_tiktok_videos e \<noteq> []" "int (length (get_all_tiktok_videos e)) \<le> cursor_of h"
      "res = Inr (AllUploaded (length (get_all_tiktok_videos e)))" "w' = w"
  | (auth_failed) "res = Inl AuthError" "w' = w"
  | (index_error) err where "res = Inl err" "w' = w"
  | (looped) h vs r s' where
      "load_uploaded_history (store w) = Inr h"
      "get_all_tiktok_videos e \<noteq> []"
      "cursor_of h < int (length (get_all_tiktok_videos e))"
      "makedirs_ok e" "youtube_service_ok e"
      "videos_to_process upload_all (get_all_tiktok_videos e) (cursor_of h) = Inr vs"
      "for_loop e upload_all (cursor_of h) (length vs) 0 vs
         \<lparr>history = h, ids = ids_of h, successful_uploads = 0, failed_uploads = 0, world = w\<rparr>
       = (r, s')"
      "w' = world s'"
      "res = (case r of Some err \<Rightarrow> Inl err
                      | None \<Rightarrow> final_summary s' (length (get_all_tiktok_videos e)))"
proof (cases "makedirs_ok e")
  case False
  with assms show ?thesis by (intro setup_failed) (simp_all add: main_def)
next
  case mk: True
  show ?thesis
  proof (cases "load_uploaded_history (store w)")
    case (Inl err)
    with assms mk show ?thesis by (intro load_failed [of err]) (simp_all add: main_def)
  next
    case (Inr h)
    let ?all = "get_all_tiktok_videos e"
    from assms mk Inr have mf: "main_from upload_all e h (cursor_of h) (ids_of h) w = (res, w')"
      by (simp add: main_def cursor_of_def ids_of_def)
    show ?thesis
    proof (cases "?all = []")
      case True
      with mf mk Inr show ?thesis by (intro no_videos [of h]) (simp_all add: main_from_def)
    next
      case ne: False
      show ?thesis
      proof (cases "int (length ?all) \<le> cursor_of h")
        case True
        with mf mk Inr ne show ?thesis
          by (intro all_uploaded [of h]) (simp_all add: main_from_def Let_def)
      next
        case lt: False
        show ?thesis
        proof (cases "youtube_service_ok e")
          case False
          with mf ne lt show ?thesis
            by (intro auth_failed) (simp_all add: main_from_def Let_def)
        next
          case yt: True
          show ?thesis
          proof (cases "videos_to_process upload_all ?all (cursor_of h)")
            case (Inl err)
            with mf ne lt yt show ?thesis
              by (intro index_error [of err]) (simp_all add: main_from_def Let_def)
          next
            case vs: (Inr vs)
            obtain r s' where run: "for_loop e upload_all (cursor_of h) (length vs) 0 vs
                \<lparr>history = h, ids = ids_of h, successful_uploads = 0, failed_uploads = 0,
                 world = w\<rparr> = (r, s')"
              by (cases "for_loop e upload_all (cursor_of h) (length vs) 0 vs
                \<lparr>history = h, ids = ids_of h, successful_uploads = 0, failed_uploads = 0,
                 world = w\<rparr>")
            from mf ne lt yt vs run have "w' = world s'"
              and "res = (case r of Some err \<Rightarrow> Inl err
                                  | None \<Rightarrow> final_summary s' (length ?all))"
              by (cases r; simp add: main_from_def Let_def)+
            with Inr ne lt mk yt vs run show ?thesis
              by (intro looped [of h vs r s']) simp_all
          qed
        qed
      qed
    qed
  qed
qed

subsection \<open>Counting events\<close>

lemma count_events_append:
  "trace w' = trace w @ t \<Longrightarrow> count_events P w' = count_events P w + length (filter P t)"
  by (simp add: count_events_def)







subsection \<open>Saved histories\<close>

lemma saved_histories_append [simp]:
  "saved_histories (t @ u) = saved_histories t @ saved_histories u"
  by (simp add: saved_histories_def)

lemma saved_histories_simps [simp]:
  "saved_histories [] = []"
  "saved_histories (Save h sr # t) = h # saved_histories t"
  "saved_histories (Upload f b r # t) = saved_histories t"
  "saved_histories (Download u f ok # t) = saved_histories t"
  "saved_histories (Sleep k # t) = saved_histories t"
  by (simp_all add: saved_histories_def)

lemma download_saves:
  assumes "download_tiktok_video e v w = (r, w1)"
  shows "saved_histories (trace w1) = saved_histories (trace w)"
    and "set (trace w) \<subseteq> set (trace w1)"
  using assms by (cases rule: download_cases; auto)+

lemma records_first:
  assumes "current_index h = Some (base + 1)" and "video_id v \<in> set (ids_of h)"
      and "video_id v \<in> set ids0 \<or> (\<exists>b y. Upload (output_file (video_id v)) b (Some y) \<in> set t)"
  shows "records base (v # vs) ids0 t h"
  unfolding records_def using assms by (intro exI [of _ 0]) simp

lemma records_shift:
  assumes "records (base + 1) vs ids1 t h"
      and "set ids1 \<subseteq> set ids0 \<union> {x. \<exists>b y. Upload (output_file x) b (Some y) \<in> set t}"
  shows "records base (v # vs) ids0 t h"
proof -
  from assms(1) obtain j where j: "j < length vs"
    "current_index h = Some (base + 1 + int j + 1)"
    "video_id (vs ! j) \<in> set (ids_of h)"
    "video_id (vs ! j) \<in> set ids1
       \<or> (\<exists>b y. Upload (output_file (video_id (vs ! j))) b (Some y) \<in> set t)"
    unfolding records_def by blast
  from j(4) assms(2) have
    "video_id (vs ! j) \<in> set ids0
       \<or> (\<exists>b y. Upload (output_file (video_id (vs ! j))) b (Some y) \<in> set t)"
    by blast
  with j(1-3) show ?thesis
    unfolding records_def by (intro exI [of _ "Suc j"]) (simp add: algebra_simps)
qed

lemma records_mono:
  "records base vs ids0 t h \<Longrightarrow> set t \<subseteq> set t' \<Longrightarrow> records base vs ids0 t' h"
  unfolding records_def by blast

lemma records_cursor: "records base vs ids0 t h \<Longrightarrow> base < cursor_of h"
  unfolding records_def cursor_of_def by auto

text \<open>What one iteration does to the saved histories, the ids, the store and the trace.\<close>

lemma loop_body_saves:
  assumes "loop_body e upload_all cur n idx v s = (r, s')"
      and "ids_of (history s) = ids s"
  shows "ids_of (history s') = ids s'
         \<and> set (trace (world s)) \<subseteq> set (trace (world s'))
         \<and> set (ids s') \<subseteq> set (ids s)
               \<union> {x. \<exists>b y. Upload (output_file x) b (Some y) \<in> set (trace (world s'))}
         \<and> ((saved_histories (trace (world s')) = saved_histories (trace (world s))
              \<and> store (world s') = store (world s))
             \<or> (saved_histories (trace (world s'))
                   = saved_histories (trace (world s)) @ [history s']
                 \<and> current_index (history s') = Some (cur + int idx + 1)
                 \<and> video_id v \<in> set (ids s')
                 \<and> (video_id v \<in> set (ids s)
                     \<or> (\<exists>b y. Upload (output_file (video_id v)) b (Some y)
                                 \<in> set (trace (world s'))))
                 \<and> (store (world s') = store (world s) \<or> store (world s') = Unparseable
                     \<or> store (world s') = Document (history s'))))"
  using assms(1)
proof (cases rule: loop_body_cases)
  case (skip h sr)
  have "store_after (store (world s)) h sr = store (world s)
        \<or> store_after (store (world s)) h sr = Unparseable
        \<or> store_after (store (world s)) h sr = Document h"
    by (cases sr) (simp_all add: store_after_def)
  with skip assms(2) show ?thesis by (auto simp: ids_of_def)
next
  case (download_failed w1)
  with assms(2) download_saves [OF download_failed(2)] download_store_eq [OF download_failed(2)]
  show ?thesis by auto
next
  case (upload_failed f w1 b)
  with assms(2) download_saves [OF upload_failed(2)] download_store_eq [OF upload_failed(2)]
  show ?thesis by auto
next
  case (save_failed f w1 b y h sr)
  have st: "store_after (store w1) h sr = store w1
        \<or> store_after (store w1) h sr = Unparseable
        \<or> store_after (store w1) h sr = Document h"
    by (cases sr) (simp_all add: store_after_def)
  from download_file [OF save_failed(2)] have f: "f = output_file (video_id v)" .
  from save_failed assms(2) download_saves [OF save_failed(2)] download_store_eq [OF save_failed(2)]
    st f
  show ?thesis by (auto simp: ids_of_def)
next
  case (published f w1 b y h)
  from download_file [OF published(2)] have f: "f = output_file (video_id v)" .
  from published assms(2) download_saves [OF published(2)] f
  show ?thesis by (auto simp: ids_of_def)
qed


lemma for_loop_ids:
  assumes "for_loop e upload_all cur n idx vs s = (r, s')"
      and "ids_of (history s) = ids s"
  shows "ids_of (history s') = ids s'
         \<and> set (trace (world s)) \<subseteq> set (trace (world s'))
         \<and> set (ids s') \<subseteq> set (ids s)
               \<union> {x. \<exists>b y. Upload (output_file x) b (Some y) \<in> set (trace (world s'))}"
  using assms
proof (induction vs arbitrary: idx s)
  case Nil
  then show ?case by auto
next
  case (Cons v vs)
  obtain r1 s1 where step: "loop_body e upload_all cur n idx v s = (r1, s1)"
    by (cases "loop_body e upload_all cur n idx v s")
  note one = loop_body_saves [OF step Cons.prems(2)]
  show ?case
  proof (cases r1)
    case None
    with step Cons.prems(1) have run: "for_loop e upload_all cur n (Suc idx) vs s1 = (r, s')"
      by simp
    from one have a: "ids_of (history s1) = ids s1" by simp
    from Cons.IH [OF run a] one show ?thesis by blast
  next
    case (Some err)
    with step Cons.prems(1) have "s' = s1" by simp
    with one show ?thesis by simp
  qed
qed

lemma for_loop_saves:
  assumes "for_loop e upload_all cur n idx vs s = (r, s')"
      and "ids_of (history s) = ids s"
  shows "\<exists>hs. saved_histories (trace (world s')) = saved_histories (trace (world s)) @ hs
              \<and> sorted_wrt (<) (map cursor_of hs)
              \<and> (\<forall>h \<in> set hs. records (cur + int idx) vs (ids s) (trace (world s')) h)
              \<and> (store (world s') = store (world s) \<or> store (world s') = Unparseable
                  \<or> (\<exists>h \<in> set hs. store (world s') = Document h))"
  using assms
proof (induction vs arbitrary: idx s)
  case Nil
  then have "s' = s" by simp
  then show ?case by (intro exI [of _ "[]"]) simp
next
  case (Cons v vs)
  obtain r1 s1 where step: "loop_body e upload_all cur n idx v s = (r1, s1)"
    by (cases "loop_body e upload_all cur n idx v s")
  note one = loop_body_saves [OF step Cons.prems(2)]
  from one have a1: "ids_of (history s1) = ids s1" by simp
  have tail: "\<exists>hs2. saved_histories (trace (world s')) = saved_histories (trace (world s1)) @ hs2
              \<and> sorted_wrt (<) (map cursor_of hs2)
              \<and> (\<forall>h \<in> set hs2. records (cur + int idx + 1) vs (ids s1) (trace (world s')) h)
              \<and> (store (world s') = store (world s1) \<or> store (world s') = Unparseable
                  \<or> (\<exists>h \<in> set hs2. store (world s') = Document h))
              \<and> set (trace (world s1)) \<subseteq> set (trace (world s'))"
  proof (cases r1)
    case None
    with step Cons.prems(1) have run: "for_loop e upload_all cur n (Suc idx) vs s1 = (r, s')"
      by simp
    from Cons.IH [OF run a1] for_loop_ids [OF run a1] show ?thesis
      by (simp add: add.commute add.left_commute)
  next
    case (Some err)
    with step Cons.prems(1) have "s' = s1" by simp
    then show ?thesis by (intro exI [of _ "[]"]) simp
  qed
  then obtain hs2 where hs2:
    "saved_histories (trace (world s')) = saved_histories (trace (world s1)) @ hs2"
    "sorted_wrt (<) (map cursor_of hs2)"
    "\<forall>h \<in> set hs2. records (cur + int idx + 1) vs (ids s1) (trace (world s')) h"
    "store (world s') = store (world s1) \<or> store (world s') = Unparseable
       \<or> (\<exists>h \<in> set hs2. store (world s') = Document h)"
    "set (trace (world s1)) \<subseteq> set (trace (world s'))"
    by blast
  from one hs2(5) have sub: "set (ids s1) \<subseteq> set (ids s)
      \<union> {x. \<exists>b y. Upload (output_file x) b (Some y) \<in> set (trace (world s'))}"
    by blast
  have shifted: "\<forall>h \<in> set hs2. records (cur + int idx) (v # vs) (ids s) (trace (world s')) h"
    using hs2(3) records_shift [OF _ sub] by blast
  from one consider
    (quiet) "saved_histories (trace (world s1)) = saved_histories (trace (world s))"
      "store (world s1) = store (world s)"
  | (saved) "saved_histories (trace (world s1)) = saved_histories (trace (world s)) @ [history s1]"
      "current_index (history s1) = Some (cur + int idx + 1)"
      "video_id v \<in> set (ids s1)"
      "video_id v \<in> set (ids s)
         \<or> (\<exists>b y. Upload (output_file (video_id v)) b (Some y) \<in> set (trace (world s1)))"
      "store (world s1) = store (world s) \<or> store (world s1) = Unparseable
         \<or> store (world s1) = Document (history s1)"
    by blast
  then show ?case
  proof cases
    case quiet
    with hs2 shifted show ?thesis by (intro exI [of _ hs2]) simp
  next
    case saved
    from saved(4) hs2(5) have prov: "video_id v \<in> set (ids s)
         \<or> (\<exists>b y. Upload (output_file (video_id v)) b (Some y) \<in> set (trace (world s')))"
      by blast
    from saved(3) a1 have "video_id v \<in> set (ids_of (history s1))" by simp
    from records_first [OF saved(2) this prov]
    have first: "records (cur + int idx) (v # vs) (ids s) (trace (world s')) (history s1)" .
    have lt: "\<forall>h \<in> set hs2. cursor_of (history s1) < cursor_of h"
      using hs2(3) records_cursor saved(2) by (fastforce simp: cursor_of_def)
    have sorted: "sorted_wrt (<) (map cursor_of (history s1 # hs2))"
      using hs2(2) lt by simp
    have store: "store (world s') = store (world s) \<or> store (world s') = Unparseable
                  \<or> (\<exists>h \<in> set (history s1 # hs2). store (world s') = Document h)"
      using hs2(4) saved(5) by auto
    from hs2(1) saved(1) sorted first shifted store show ?thesis
      by (intro exI [of _ "history s1 # hs2"]) simp
  qed
qed


lemma window_nth:
  assumes "0 \<le> c" and "c < int (length all_videos)"
      and "videos_to_process upload_all all_videos c = Inr vs" and "j < length vs"
  shows "nat c + j < length all_videos \<and> vs ! j = all_videos ! (nat c + j)
         \<and> (\<not> upload_all \<longrightarrow> j = 0)"
proof (cases upload_all)
  case True
  with assms window_in_range(2) [OF assms(1,2)] have "vs = drop (nat c) all_videos" by simp
  with assms(4) True show ?thesis by auto
next
  case False
  with assms window_in_range(1) [OF assms(1,2)] have "vs = [all_videos ! nat c]" by simp
  with assms(1,2,4) False show ?thesis by auto
qed

lemma main_saves:
  "\<exists>hs. saved_histories (trace (snd (main upload_all e w))) = saved_histories (trace w) @ hs
        \<and> (\<forall>c. persisted_cursor (store w) = Some c \<longrightarrow> sorted_wrt (<) (c # map cursor_of hs))
        \<and> (store (snd (main upload_all e w)) = store w
            \<or> store (snd (main upload_all e w)) = Unparseable
            \<or> (\<exists>h \<in> set hs. store (snd (main upload_all e w)) = Document h))
        \<and> (\<forall>c. persisted_cursor (store w) = Some c \<and> 0 \<le> c \<longrightarrow>
             (\<forall>h \<in> set hs. \<exists>i.
                 nat c \<le> i \<and> (\<not> upload_all \<longrightarrow> i = nat c)
                 \<and> i < length (get_all_tiktok_videos e)
                 \<and> current_index h = Some (int i + 1)
                 \<and> video_id (get_all_tiktok_videos e ! i) \<in> set (ids_of h)
                 \<and> (video_id (get_all_tiktok_videos e ! i) \<in> persisted_ids (store w)
                     \<or> (\<exists>b y. Upload (output_file (video_id (get_all_tiktok_videos e ! i))) b (Some y)
                                \<in> set (trace (snd (main upload_all e w)))))))"
proof -
  let ?all = "get_all_tiktok_videos e"
  obtain res w' where m: "main upload_all e w = (res, w')" by (cases "main upload_all e w")
  have quiet: ?thesis if "w' = w"
    using that m by (intro exI [of _ "[]"]) simp
  from m show ?thesis
  proof (cases rule: main_result_cases)
    case (looped h vs r s')
    have pc: "persisted_cursor (store w) = Some (cursor_of h)"
      and pi: "persisted_ids (store w) = set (ids_of h)"
      using looped(1) by (simp_all add: persisted_cursor_def persisted_ids_def)
    from for_loop_saves [OF looped(7)] looped(8) obtain hs where hs:
      "saved_histories (trace w') = saved_histories (trace w) @ hs"
      "sorted_wrt (<) (map cursor_of hs)"
      "\<forall>h' \<in> set hs. records (cursor_of h) vs (ids_of h) (trace w') h'"
      "store w' = store w \<or> store w' = Unparseable \<or> (\<exists>h' \<in> set hs. store w' = Document h')"
      by auto
    have sorted: "sorted_wrt (<) (cursor_of h # map cursor_of hs)"
      using hs(2,3) records_cursor by auto
    have idx: "\<exists>i. nat (cursor_of h) \<le> i \<and> (\<not> upload_all \<longrightarrow> i = nat (cursor_of h))
                 \<and> i < length ?all
                 \<and> current_index h' = Some (int i + 1)
                 \<and> video_id (?all ! i) \<in> set (ids_of h')
                 \<and> (video_id (?all ! i) \<in> persisted_ids (store w)
                     \<or> (\<exists>b y. Upload (output_file (video_id (?all ! i))) b (Some y) \<in> set (trace w')))"
      if nonneg: "0 \<le> cursor_of h" and h': "h' \<in> set hs" for h'
    proof -
      from hs(3) h' obtain j where j: "j < length vs"
        "current_index h' = Some (cursor_of h + int j + 1)"
        "video_id (vs ! j) \<in> set (ids_of h')"
        "video_id (vs ! j) \<in> set (ids_of h)
           \<or> (\<exists>b y. Upload (output_file (video_id (vs ! j))) b (Some y) \<in> set (trace w'))"
        unfolding records_def by blast
      note w = window_nth [OF nonneg looped(3) looped(6) j(1)]
      from nonneg j(2) have "current_index h' = Some (int (nat (cursor_of h) + j) + 1)" by simp
      with w j(3,4) pi show ?thesis
        by (intro exI [of _ "nat (cursor_of h) + j"]) auto
    qed
    from hs(1) sorted hs(4) idx pc m show ?thesis
      by (intro exI [of _ hs]) auto
  qed (use quiet in simp_all)
qed

lemma main_cursor_mono:
  assumes "persisted_cursor (store w) = Some c"
      and "persisted_cursor (store (snd (main upload_all e w))) = Some c'"
  shows "c \<le> c'"
proof -
  from main_saves [of upload_all e w] assms(1) obtain hs where
    hs: "sorted_wrt (<) (c # map cursor_of hs)"
      "store (snd (main upload_all e w)) = store w
         \<or> store (snd (main upload_all e w)) = Unparseable
         \<or> (\<exists>h \<in> set hs. store (snd (main upload_all e w)) = Document h)"
    by blast
  from hs(2) show ?thesis
  proof (elim disjE bexE)
    assume "store (snd (main upload_all e w)) = store w"
    with assms show ?thesis by simp
  next
    assume "store (snd (main upload_all e w)) = Unparseable"
    with assms(2) show ?thesis by (simp add: persisted_cursor_def load_uploaded_history_def)
  next
    fix h assume "h \<in> set hs" "store (snd (main upload_all e w)) = Document h"
    with assms(2) hs(1) show ?thesis
      by (auto simp: persisted_cursor_def load_uploaded_history_def)
  qed
qed

lemma main_unreadable: "persisted_cursor (store w) = None \<Longrightarrow> snd (main upload_all e w) = w"
  by (cases "store w")
     (simp_all add: persisted_cursor_def load_uploaded_history_def main_def)

lemma passes_unreadable: "persisted_cursor (store w) = None \<Longrightarrow> passes ps w = w"
proof (induction ps arbitrary: w)
  case Nil
  show ?case by simp
next
  case (Cons p ps)
  obtain upload_all e where p: "p = (upload_all, e)" by (cases p)
  from main_unreadable [OF Cons.prems, of upload_all e] Cons.IH [OF Cons.prems] p
  show ?case by simp
qed

lemma passes_cursor_mono:
  assumes "persisted_cursor (store w) = Some c"
      and "persisted_cursor (store (passes ps w)) = Some c'"
  shows "c \<le> c'"
  using assms
proof (induction ps arbitrary: w c)
  case Nil
  then show ?case by simp
next
  case (Cons p ps)
  obtain upload_all e where p: "p = (upload_all, e)" by (cases p)
  let ?w1 = "snd (main upload_all e w)"
  from Cons.prems(2) p have fin: "persisted_cursor (store (passes ps ?w1)) = Some c'" by simp
  show ?case
  proof (cases "persisted_cursor (store ?w1)")
    case None
    from passes_unreadable [OF None, of ps] fin None show ?thesis by simp
  next
    case (Some c1)
    from main_cursor_mono [OF Cons.prems(1) Some] Cons.IH [OF Some fin] show ?thesis by simp
  qed
qed

lemma loop_body_failure_keeps:
  assumes "video_id v \<notin> set (ids s)"
      and "fst (download_tiktok_video e v (world s)) = None
           \<or> (\<exists>f w1. download_tiktok_video e v (world s) = (Some f, w1)
                 \<and> next_chunk e (trace w1) f (upload_body e (video_title v) (get_description v))
                     = None)"
  shows "fst (loop_body e upload_all cur n idx v s) = None
         \<and> history (snd (loop_body e upload_all cur n idx v s)) = history s
         \<and> ids (snd (loop_body e upload_all cur n idx v s)) = ids s
         \<and> store (world (snd (loop_body e upload_all cur n idx v s))) = store (world s)
         \<and> saved_histories (trace (world (snd (loop_body e upload_all cur n idx v s))))
             = saved_histories (trace (world s))"
proof -
  obtain r s' where step: "loop_body e upload_all cur n idx v s = (r, s')"
    by (cases "loop_body e upload_all cur n idx v s")
  from step have "r = None \<and> history s' = history s \<and> ids s' = ids s
      \<and> store (world s') = store (world s)
      \<and> saved_histories (trace (world s')) = saved_histories (trace (world s))"
  proof (cases rule: loop_body_cases)
    case (skip h sr)
    with assms(1) show ?thesis by simp
  next
    case (download_failed w1)
    with download_saves(1) [OF download_failed(2)] download_store_eq [OF download_failed(2)]
    show ?thesis by simp
  next
    case (upload_failed f w1 b)
    with download_saves(1) [OF upload_failed(2)] download_store_eq [OF upload_failed(2)]
    show ?thesis by simp
  next
    case (save_failed f w1 b y h sr)
    with assms(2) show ?thesis by auto
  next
    case (published f w1 b y h)
    with assms(2) show ?thesis by auto
  qed
  with step show ?thesis by simp
qed


section \<open>Title truncation\<close>

text \<open>
  C8. \<open>upload_to_youtube\<close> sends the body built by \<open>upload_body\<close>; a title of more than 100
  code points is replaced by its first 97 followed by three dots, 100 in all, and a title
  of at most 100 is sent as it is.
\<close>

theorem title_truncated:
  "trace (snd (upload_to_youtube e f title d w))
     = trace w @ [Upload f (upload_body e title d) (fst (upload_to_youtube e f title d w))]
   \<and> (length title > 100 \<longrightarrow>
        snippet_title (upload_body e title d) = take 97 title @ ascii ''...''
        \<and> length (snippet_title (upload_body e title d)) = 100)
   \<and> (length title \<le> 100 \<longrightarrow> snippet_title (upload_body e title d) = title)"
  by (simp add: upload_to_youtube_def upload_body_def Let_def ascii_def)

theorem title_truncated_witness:
  "length (replicate 120 (65::nat)) > 100
   \<and> snippet_title (upload_body example_env (replicate 120 65) []) = replicate 97 65 @ ascii ''...''
   \<and> length (snippet_title (upload_body example_env (replicate 120 65) [])) = 100
   \<and> length (ascii ''A'') \<le> 100
   \<and> snippet_title (upload_body example_env (ascii ''A'') []) = ascii ''A''"
  using title_truncated [of example_env "[]" "replicate 120 65" "[]" fresh_world]
        title_truncated [of example_env "[]" "ascii ''A''" "[]" fresh_world]
  by (simp add: ascii_def)

section \<open>A failing publish\<close>



section \<open>Loading the history\<close>

text \<open>
  C3 (counterexample). A history file that exists but does not parse makes \<open>load_uploaded_history\<close> raise, and the
  pass of the example ends with that exception before anything is done.
\<close>

theorem load_malformed_raises:
  "load_uploaded_history Unparseable = Inl JSONDecodeError
   \<and> main False example_env \<lparr>store = Unparseable, trace = []\<rparr>
       = (Inl JSONDecodeError, \<lparr>store = Unparseable, trace = []\<rparr>)"
  by (simp add: load_uploaded_history_def main_def example_env_def)

text \<open>
  C3, as the code has it. Without a history file, \<open>load_uploaded_history\<close> returns the
  zero-value record and does not fail. With a file that does not parse it raises the
  decoder's exception; \<open>main\<close> does not catch it, so the pass ends at once and leaves the
  world as it was.
\<close>

theorem load_absent_or_malformed:
  "load_uploaded_history Missing = Inr \<lparr>current_index = Some 0, uploaded_ids = Some []\<rparr>
   \<and> load_uploaded_history Unparseable = Inl JSONDecodeError
   \<and> (makedirs_ok e \<and> store w = Unparseable \<longrightarrow> main upload_all e w = (Inl JSONDecodeError, w))"
  by (simp add: load_uploaded_history_def main_def)

theorem load_absent_or_malformed_witness:
  "makedirs_ok example_env \<and> store \<lparr>store = Unparseable, trace = []\<rparr> = Unparseable
   \<and> main True example_env \<lparr>store = Unparseable, trace = []\<rparr>
       = (Inl JSONDecodeError, \<lparr>store = Unparseable, trace = []\<rparr>)"
  using load_absent_or_malformed [of example_env "\<lparr>store = Unparseable, trace = []\<rparr>" True]
  by (simp add: example_env_def)

text \<open>
  C9. When the history file holds an object, loading returns it without error, and \<open>main\<close>
  goes on with cursor 0 where the object has no \<open>current_index\<close>, and with the empty id
  list where it has no \<open>uploaded_ids\<close>.
\<close>

theorem missing_fields_default:
  assumes "store w = Document h" and "makedirs_ok e"
  shows "load_uploaded_history (store w) = Inr h
         \<and> (current_index h = None \<longrightarrow>
              main upload_all e w = main_from upload_all e h 0 (ids_of h) w)
         \<and> (uploaded_ids h = None \<longrightarrow>
              main upload_all e w = main_from upload_all e h (cursor_of h) [] w)"
  using assms by (simp add: load_uploaded_history_def main_def ids_of_def cursor_of_def)

theorem missing_fields_default_witness:
  "store bare_world = Document \<lparr>current_index = None, uploaded_ids = None\<rparr>
   \<and> makedirs_ok example_env
   \<and> main False example_env bare_world
       = main_from False example_env \<lparr>current_index = None, uploaded_ids = None\<rparr> 0 [] bare_world
   \<and> fst (main False example_env bare_world)
       = Inr (Summary \<lparr>successful = 1, failed = 0, progress = 1, total = 3, remaining = Some 2\<rparr>)
   \<and> store (snd (main False example_env bare_world))
       = Document \<lparr>current_index = Some 1, uploaded_ids = Some [ascii ''A'']\<rparr>"
proof -
  have a: "store bare_world = Document \<lparr>current_index = None, uploaded_ids = None\<rparr>"
    by (simp add: bare_world_def)
  have b: "makedirs_ok example_env"
    by (simp add: example_env_def)
  have c: "main_from False example_env \<lparr>current_index = None, uploaded_ids = None\<rparr> 0 [] bare_world
      = (Inr (Summary \<lparr>successful = 1, failed = 0, progress = 1, total = 3, remaining = Some 2\<rparr>),
         \<lparr>store = Document \<lparr>current_index = Some 1, uploaded_ids = Some [ascii ''A'']\<rparr>,
          trace = [Download (ascii ''A'') (output_file (ascii ''A'')) True,
                   Upload (output_file (ascii ''A''))
                     (upload_body example_env (ascii ''A'') fallback_description)
                     (Some (ascii ''yt'')),
                   Save \<lparr>current_index = Some 1, uploaded_ids = Some [ascii ''A'']\<rparr> Saved]\<rparr>)"
    by (simp add: eval_defs example_env_simps bare_world_def)
  show ?thesis
    using a b c missing_fields_default [OF a b, of False]
    by (simp add: ids_of_def)
qed

section \<open>Items that are already uploaded\<close>

text \<open>
  C5. An item whose id is in the list of uploaded ids is neither downloaded nor uploaded:
  its iteration sets the cursor to its index plus one and saves the history, nothing else
  is logged, and when the save succeeds the loop goes on with the next item. Hence an
  id in the list is never materialized or published again in the rest of the loop, and
  an id in the persisted list is never materialized or published again by any sequence of
  later passes, in which it stays persisted as long as the file is readable.
\<close>

theorem already_uploaded_skipped:
  "(video_id v \<in> set (ids s) \<longrightarrow>
      (let h = (history s)\<lparr>current_index := Some (cur + int idx + 1)\<rparr>;
           sr = json_dump e (trace (world s)) h;
           s' = s\<lparr>history := h,
                  world := \<lparr>store = store_after (store (world s)) h sr,
                            trace = trace (world s) @ [Save h sr]\<rparr>\<rparr>
       in loop_body e upload_all cur n idx v s = (if sr = Saved then None else Some OSError, s')
          \<and> (sr = Saved \<longrightarrow>
                for_loop e upload_all cur n idx (v # vs) s
                  = for_loop e upload_all cur n (Suc idx) vs s')))
   \<and> (x \<in> set (ids s) \<longrightarrow>
        filter (touches x) (trace (world (snd (for_loop e upload_all cur n idx vs s))))
          = filter (touches x) (trace (world s)))
   \<and> (x \<in> persisted_ids (store w) \<longrightarrow>
        (store (passes ps w) = Unparseable \<or> x \<in> persisted_ids (store (passes ps w)))
        \<and> filter (touches x) (trace (passes ps w)) = filter (touches x) (trace w))"
proof (intro conjI impI)
  assume v: "video_id v \<in> set (ids s)"
  obtain r s1 where step: "loop_body e upload_all cur n idx v s = (r, s1)"
    by (cases "loop_body e upload_all cur n idx v s")
  from step v have
    "r = (if json_dump e (trace (world s)) ((history s)\<lparr>current_index := Some (cur + int idx + 1)\<rparr>) = Saved
          then None else Some OSError)
     \<and> s1 = s\<lparr>history := (history s)\<lparr>current_index := Some (cur + int idx + 1)\<rparr>,
               world := \<lparr>store = store_after (store (world s))
                                  ((history s)\<lparr>current_index := Some (cur + int idx + 1)\<rparr>)
                                  (json_dump e (trace (world s))
                                     ((history s)\<lparr>current_index := Some (cur + int idx + 1)\<rparr>)),
                         trace = trace (world s) @
                           [Save ((history s)\<lparr>current_index := Some (cur + int idx + 1)\<rparr>)
                              (json_dump e (trace (world s))
                                 ((history s)\<lparr>current_index := Some (cur + int idx + 1)\<rparr>))]\<rparr>\<rparr>"
    by (cases rule: loop_body_cases) simp_all
  with step show
    "let h = (history s)\<lparr>current_index := Some (cur + int idx + 1)\<rparr>;
         sr = json_dump e (trace (world s)) h;
         s' = s\<lparr>history := h,
                world := \<lparr>store = store_after (store (world s)) h sr,
                          trace = trace (world s) @ [Save h sr]\<rparr>\<rparr>
     in loop_body e upload_all cur n idx v s = (if sr = Saved then None else Some OSError, s')
        \<and> (sr = Saved \<longrightarrow>
              for_loop e upload_all cur n idx (v # vs) s
                = for_loop e upload_all cur n (Suc idx) vs s')"
    by (simp add: Let_def)
next
  assume x: "x \<in> set (ids s)"
  obtain r s' where run: "for_loop e upload_all cur n idx vs s = (r, s')"
    by (cases "for_loop e upload_all cur n idx vs s")
  from for_loop_no_touch [OF run x] run
  show "filter (touches x) (trace (world (snd (for_loop e upload_all cur n idx vs s))))
          = filter (touches x) (trace (world s))"
    by simp
next
  assume "x \<in> persisted_ids (store w)"
  then have k: "keeps x (store w)" by (simp add: keeps_def)
  from passes_keeps [OF k, of ps]
  show "store (passes ps w) = Unparseable \<or> x \<in> persisted_ids (store (passes ps w))"
    by (simp add: keeps_def)
next
  assume "x \<in> persisted_ids (store w)"
  then have k: "keeps x (store w)" by (simp add: keeps_def)
  from passes_keeps [OF k, of ps]
  show "filter (touches x) (trace (passes ps w)) = filter (touches x) (trace w)"
    by simp
qed


theorem already_uploaded_skipped_witness:
  "video_id (example_video ''A'') \<in> set (ids lagging_frame)
   \<and> json_dump example_env (trace (world lagging_frame))
         (lagging_history\<lparr>current_index := Some 1\<rparr>) = Saved
   \<and> loop_body example_env True 0 3 0 (example_video ''A'') lagging_frame
       = (None, lagging_frame\<lparr>history := lagging_history\<lparr>current_index := Some 1\<rparr>,
                  world := \<lparr>store = Document (lagging_history\<lparr>current_index := Some 1\<rparr>),
                            trace = [Save (lagging_history\<lparr>current_index := Some 1\<rparr>) Saved]\<rparr>\<rparr>)
   \<and> ascii ''A'' \<in> persisted_ids (store (world lagging_frame))
   \<and> filter (touches (ascii ''A''))
         (trace (passes [(True, example_env), (False, example_env)] (world lagging_frame))) = []
   \<and> store (passes [(True, example_env), (False, example_env)] (world lagging_frame))
       = Document \<lparr>current_index = Some 3, uploaded_ids = Some [ascii ''A'', ascii ''B'', ascii ''C'']\<rparr>"
proof -
  have run: "store (passes [(True, example_env), (False, example_env)] (world lagging_frame))
       = Document \<lparr>current_index = Some 3, uploaded_ids = Some [ascii ''A'', ascii ''B'', ascii ''C'']\<rparr>"
    by (simp add: eval_defs example_env_simps lagging_frame_def lagging_history_def)
  show ?thesis
    using run
      already_uploaded_skipped [of "example_video ''A''" lagging_frame 0 0 example_env True 3 "[]"
        "ascii ''A''" "world lagging_frame" "[(True, example_env), (False, example_env)]"]
    by (simp add: example_video_simps example_env_simps lagging_frame_def lagging_history_def
          store_after_def persisted_ids_def load_uploaded_history_def ids_of_def Let_def)
qed

section \<open>A failing save\<close>

text \<open>
  C2 (the code at a failing input). In a bulk pass over A, B, C from an empty store, the
  save after the upload of A raises. The \<open>except\<close> branch of the upload catches it: the pass
  counts A as failed, goes on with B and C, and returns with a summary. The same failure
  in the already-uploaded branch, which has no \<open>try\<close> around its save, ends the pass with
  the exception.
\<close>

theorem save_failure_swallowed:
  "fst (main True first_save_fails_env fresh_world)
     = Inr (Summary \<lparr>successful = 2, failed = 1, progress = 3, total = 3, remaining = None\<rparr>)
   \<and> store (snd (main True first_save_fails_env fresh_world))
     = Document \<lparr>current_index = Some 3, uploaded_ids = Some [ascii ''A'', ascii ''B'', ascii ''C'']\<rparr>
   \<and> filter (\<lambda>ev. case ev of Save h r \<Rightarrow> True | _ \<Rightarrow> False)
        (trace (snd (main True first_save_fails_env fresh_world)))
     = [Save \<lparr>current_index = Some 1, uploaded_ids = Some [ascii ''A'']\<rparr> OpenFailed,
        Save \<lparr>current_index = Some 2, uploaded_ids = Some [ascii ''A'', ascii ''B'']\<rparr> Saved,
        Save \<lparr>current_index = Some 3, uploaded_ids = Some [ascii ''A'', ascii ''B'', ascii ''C'']\<rparr> Saved]
   \<and> main True first_save_fails_env (world lagging_frame)
     = (Inl OSError,
        \<lparr>store = Document lagging_history,
         trace = [Save (lagging_history\<lparr>current_index := Some 1\<rparr>) OpenFailed]\<rparr>)"
  by (simp add: eval_defs first_save_fails_env_simps fresh_world_def lagging_frame_def lagging_history_def)

section \<open>The published description\<close>

text \<open>
  C10. Enumeration builds every descriptor without a \<open>description\<close> key, so the description
  sent for it is the fallback string followed by the promotional suffix; every upload
  request that a pass adds to the trace carries exactly that description.
\<close>

theorem description_is_fallback:
  "(\<forall>v \<in> set (get_all_tiktok_videos e).
      video_description v = None
      \<and> snippet_description (upload_body e (video_title v) (get_description v))
          = fallback_description @ description_suffix)
   \<and> (\<exists>k. upload_descriptions (trace (snd (main upload_all e w)))
            = upload_descriptions (trace w)
              @ replicate k (fallback_description @ description_suffix))"
proof
  show "\<forall>v \<in> set (get_all_tiktok_videos e).
      video_description v = None
      \<and> snippet_description (upload_body e (video_title v) (get_description v))
          = fallback_description @ description_suffix"
    by (simp add: enumerated_description upload_body_def get_description_def)
next
  obtain res w' where m: "main upload_all e w = (res, w')"
    by (cases "main upload_all e w")
  then have "\<exists>k. upload_descriptions (trace w')
            = upload_descriptions (trace w)
              @ replicate k (fallback_description @ description_suffix)"
  proof (cases rule: main_cases)
    case early
    show ?thesis by (rule exI [of _ 0]) (simp add: early)
  next
    case (looped h cur vs r s')
    from videos_to_process_subset [OF looped(7)] enumerated_description
    have "\<forall>v \<in> set vs. video_description v = None" by blast
    from for_loop_descriptions [OF looped(8) this] looped(9) show ?thesis by simp
  qed
  with m show "\<exists>k. upload_descriptions (trace (snd (main upload_all e w)))
            = upload_descriptions (trace w)
              @ replicate k (fallback_description @ description_suffix)"
    by simp
qed

theorem description_is_fallback_witness:
  "example_video ''A'' \<in> set (get_all_tiktok_videos example_env)
   \<and> video_description (example_video ''A'') = None
   \<and> snippet_description
         (upload_body example_env (video_title (example_video ''A''))
            (get_description (example_video ''A'')))
       = fallback_description @ description_suffix
   \<and> upload_descriptions (trace (snd (main False example_env fresh_world)))
       = [fallback_description @ description_suffix]
   \<and> fallback_description @ description_suffix
       = ascii ''Check out my other content!'' @ [10, 10, 128241]
         @ ascii '' Share and subscribe'' @ [10] @ ascii ''#Shorts''"
proof -
  have a: "example_video ''A'' \<in> set (get_all_tiktok_videos example_env)"
    by (simp add: example_videos)
  have run: "upload_descriptions (trace (snd (main False example_env fresh_world)))
       = [fallback_description @ description_suffix]"
    by (simp add: eval_defs example_env_simps fresh_world_def upload_body_def)
  from description_is_fallback [of example_env False fresh_world] a
  have "video_description (example_video ''A'') = None
        \<and> snippet_description
             (upload_body example_env (video_title (example_video ''A''))
                (get_description (example_video ''A'')))
           = fallback_description @ description_suffix"
    by blast
  with a run show ?thesis
    by (simp add: fallback_description_def description_suffix_def)
qed

section \<open>Single and bulk mode\<close>

text \<open>
  C7. With the persisted cursor inside the sequence, single mode takes the one item at the
  cursor as its window and leaves the persisted cursor where it was or one further; bulk
  mode takes the whole remaining slice, and when nothing fails (directory setup,
  authentication, every download, upload and save) the pass returns with the persisted
  cursor at the length of the sequence and no failure counted.
\<close>

theorem single_and_bulk_windows:
  assumes "persisted_cursor (store w) = Some cur" and "0 \<le> cur"
      and "cur < int (length (get_all_tiktok_videos e))"
  shows "videos_to_process False (get_all_tiktok_videos e) cur
           = Inr [get_all_tiktok_videos e ! nat cur]
         \<and> (\<forall>c'. persisted_cursor (store (snd (main False e w))) = Some c'
                \<longrightarrow> c' = cur \<or> c' = cur + 1)
         \<and> videos_to_process True (get_all_tiktok_videos e) cur
           = Inr (drop (nat cur) (get_all_tiktok_videos e))
         \<and> (makedirs_ok e \<and> youtube_service_ok e \<and> no_failures e \<longrightarrow>
              persisted_cursor (store (snd (main True e w)))
                = Some (int (length (get_all_tiktok_videos e)))
              \<and> (\<exists>k. fst (main True e w)
                    = Inr (Summary \<lparr>successful = k, failed = 0,
                             progress = int (length (get_all_tiktok_videos e)),
                             total = length (get_all_tiktok_videos e), remaining = None\<rparr>)))"
  using window_in_range [OF assms(2,3)] main_single_cursor [OF assms(1)]
    main_bulk_no_failures [OF assms]
  by blast

theorem single_and_bulk_windows_witness:
  "persisted_cursor (store fresh_world) = Some 0
   \<and> (0::int) < int (length (get_all_tiktok_videos example_env))
   \<and> makedirs_ok example_env \<and> youtube_service_ok example_env \<and> no_failures example_env
   \<and> videos_to_process False (get_all_tiktok_videos example_env) 0 = Inr [example_video ''A'']
   \<and> persisted_cursor (store (snd (main False example_env fresh_world))) = Some 1
   \<and> videos_to_process True (get_all_tiktok_videos example_env) 0
       = Inr [example_video ''A'', example_video ''B'', example_video ''C'']
   \<and> persisted_cursor (store (snd (main True example_env fresh_world))) = Some 3
   \<and> fst (main True example_env fresh_world)
       = Inr (Summary \<lparr>successful = 3, failed = 0, progress = 3, total = 3, remaining = None\<rparr>)"
proof -
  have a: "persisted_cursor (store fresh_world) = Some 0"
    by (simp add: fresh_world_def persisted_cursor_def load_uploaded_history_def cursor_of_def)
  have b: "(0::int) \<le> 0" by simp
  have c: "(0::int) < int (length (get_all_tiktok_videos example_env))"
    by (simp add: example_videos)
  have d: "makedirs_ok example_env \<and> youtube_service_ok example_env \<and> no_failures example_env"
    by (simp add: example_env_simps no_failures_def)
  have single: "persisted_cursor (store (snd (main False example_env fresh_world))) = Some 1"
    by (simp add: eval_defs example_env_simps fresh_world_def persisted_cursor_def cursor_of_def)
  have bulk: "fst (main True example_env fresh_world)
       = Inr (Summary \<lparr>successful = 3, failed = 0, progress = 3, total = 3, remaining = None\<rparr>)"
    by (simp add: eval_defs example_env_simps fresh_world_def)
  from single_and_bulk_windows [OF a b c] a c d single bulk
  show ?thesis by (simp add: example_videos)
qed

section \<open>What a pass reports\<close>





section \<open>The cursor\<close>

text \<open>
  C1 (the code at a failing input). In a bulk pass over A, B, C from an empty store the
  download of A raises, and B and C are published. The iteration of A leaves the cursor
  alone, but the assignment of the item's own index plus one in the iterations of B and C
  carries the persisted cursor to 3, past index 0, although A is not among the completed
  ids and no upload of A has returned. The summary counts one failure and yet reports
  nothing remaining, and the next pass ends at once on the check that all videos are
  uploaded, so A is never tried again. In single mode the same failure leaves the store as
  it was, and the next pass starts with A.
\<close>

theorem cursor_passes_failed_item:
  "store (snd (main True download_fails_env fresh_world))
     = Document \<lparr>current_index = Some 3, uploaded_ids = Some [ascii ''B'', ascii ''C'']\<rparr>
   \<and> hd (trace (snd (main True download_fails_env fresh_world)))
     = Download (ascii ''A'') (output_file (ascii ''A'')) False
   \<and> fst (main True download_fails_env fresh_world)
     = Inr (Summary \<lparr>successful = 2, failed = 1, progress = 3, total = 3, remaining = None\<rparr>)
   \<and> ascii ''A'' \<notin> persisted_ids (store (snd (main True download_fails_env fresh_world)))
   \<and> filter is_published (filter (touches (ascii ''A''))
         (trace (snd (main True download_fails_env fresh_world)))) = []
   \<and> main False download_fails_env (snd (main True download_fails_env fresh_world))
     = (Inr (AllUploaded 3), snd (main True download_fails_env fresh_world))
   \<and> main False download_fails_env fresh_world
     = (Inr (Summary \<lparr>successful = 0, failed = 1, progress = 0, total = 3, remaining = Some 3\<rparr>),
        \<lparr>store = Missing,
         trace = [Download (ascii ''A'') (output_file (ascii ''A'')) False]\<rparr>)"
  by (simp add: eval_defs download_fails_env_simps fresh_world_def persisted_ids_def ids_of_def
        output_file_inj)

text \<open>
  The parts of the cursor discipline that the loop keeps in both modes. The histories
  handed to the save during a pass have strictly increasing cursors, all above the cursor
  the pass started from, and the store afterwards is the one before, an unreadable file,
  or one of these histories. With a starting cursor that is not negative, each saved
  history has cursor \<open>i + 1\<close> for an index \<open>i\<close> of the window (the starting cursor itself in
  single mode), the id of the item at \<open>i\<close> is among its completed ids, and that id was
  completed before the pass or an upload of the item has returned a response. Over any
  sequence of passes the persisted cursor does not decrease. An iteration whose download
  or upload raises leaves the history, the completed ids and the store as they were and
  saves nothing.
\<close>

theorem cursor_discipline:
  "(\<exists>hs. saved_histories (trace (snd (main upload_all e w))) = saved_histories (trace w) @ hs
        \<and> (\<forall>c. persisted_cursor (store w) = Some c \<longrightarrow> sorted_wrt (<) (c # map cursor_of hs))
        \<and> (store (snd (main upload_all e w)) = store w
            \<or> store (snd (main upload_all e w)) = Unparseable
            \<or> (\<exists>h \<in> set hs. store (snd (main upload_all e w)) = Document h))
        \<and> (\<forall>c. persisted_cursor (store w) = Some c \<and> 0 \<le> c \<longrightarrow>
             (\<forall>h \<in> set hs. \<exists>i.
                 nat c \<le> i \<and> (\<not> upload_all \<longrightarrow> i = nat c)
                 \<and> i < length (get_all_tiktok_videos e)
                 \<and> current_index h = Some (int i + 1)
                 \<and> video_id (get_all_tiktok_videos e ! i) \<in> set (ids_of h)
                 \<and> (video_id (get_all_tiktok_videos e ! i) \<in> persisted_ids (store w)
                     \<or> (\<exists>b y. Upload (output_file (video_id (get_all_tiktok_videos e ! i))) b (Some y)
                                \<in> set (trace (snd (main upload_all e w))))))))
   \<and> (persisted_cursor (store w) = Some c \<and> persisted_cursor (store (passes ps w)) = Some c'
        \<longrightarrow> c \<le> c')
   \<and> (video_id v \<notin> set (ids s)
       \<and> (fst (download_tiktok_video e v (world s)) = None
           \<or> (\<exists>f w1. download_tiktok_video e v (world s) = (Some f, w1)
                 \<and> next_chunk e (trace w1) f (upload_body e (video_title v) (get_description v))
                     = None))
       \<longrightarrow> fst (loop_body e upload_all cur n idx v s) = None
         \<and> history (snd (loop_body e upload_all cur n idx v s)) = history s
         \<and> ids (snd (loop_body e upload_all cur n idx v s)) = ids s
         \<and> store (world (snd (loop_body e upload_all cur n idx v s))) = store (world s)
         \<and> saved_histories (trace (world (snd (loop_body e upload_all cur n idx v s))))
             = saved_histories (trace (world s)))"
  using main_saves [of upload_all e w] passes_cursor_mono [of w c ps c']
    loop_body_failure_keeps [of v s e upload_all cur n idx]
  by blast


theorem cursor_discipline_witness:
  "persisted_cursor (store fresh_world) = Some 0
   \<and> saved_histories (trace (snd (main True download_fails_env fresh_world)))
       = [\<lparr>current_index = Some 2, uploaded_ids = Some [ascii ''B'']\<rparr>,
          \<lparr>current_index = Some 3, uploaded_ids = Some [ascii ''B'', ascii ''C'']\<rparr>]
   \<and> sorted_wrt (<) (0 # map cursor_of
         [\<lparr>current_index = Some 2, uploaded_ids = Some [ascii ''B'']\<rparr>,
          \<lparr>current_index = Some 3, uploaded_ids = Some [ascii ''B'', ascii ''C'']\<rparr>])
   \<and> (\<exists>i < length (get_all_tiktok_videos download_fails_env).
         current_index \<lparr>current_index = Some 3, uploaded_ids = Some [ascii ''B'', ascii ''C'']\<rparr>
           = Some (int i + 1)
         \<and> video_id (get_all_tiktok_videos download_fails_env ! i)
             \<in> set (ids_of \<lparr>current_index = Some 3,
                               uploaded_ids = Some [ascii ''B'', ascii ''C'']\<rparr>))
   \<and> persisted_cursor (store (passes [(True, download_fails_env)] fresh_world)) = Some 3
   \<and> (0::int) \<le> 3
   \<and> video_id (example_video ''A'') \<notin> set (ids (example_frame\<lparr>ids := []\<rparr>))
   \<and> fst (download_tiktok_video download_fails_env (example_video ''A'')
            (world (example_frame\<lparr>ids := []\<rparr>))) = None
   \<and> fst (loop_body download_fails_env True 0 3 0 (example_video ''A'')
            (example_frame\<lparr>ids := []\<rparr>)) = None
   \<and> history (snd (loop_body download_fails_env True 0 3 0 (example_video ''A'')
            (example_frame\<lparr>ids := []\<rparr>))) = example_history
   \<and> store (world (snd (loop_body download_fails_env True 0 3 0 (example_video ''A'')
            (example_frame\<lparr>ids := []\<rparr>)))) = Document example_history"
proof -
  let ?h2 = "\<lparr>current_index = Some 2, uploaded_ids = Some [ascii ''B'']\<rparr>"
  let ?h3 = "\<lparr>current_index = Some 3, uploaded_ids = Some [ascii ''B'', ascii ''C'']\<rparr>"
  let ?fr = "example_frame\<lparr>ids := []\<rparr>"
  have pc: "persisted_cursor (store fresh_world) = Some 0"
    by (simp add: fresh_world_def persisted_cursor_def load_uploaded_history_def cursor_of_def)
  have ev: "saved_histories (trace (snd (main True download_fails_env fresh_world))) = [?h2, ?h3]"
    by (simp add: eval_defs download_fails_env_simps fresh_world_def)
  have fin: "persisted_cursor (store (passes [(True, download_fails_env)] fresh_world)) = Some 3"
    by (simp add: eval_defs download_fails_env_simps fresh_world_def persisted_cursor_def
          cursor_of_def)
  have a: "video_id (example_video ''A'') \<notin> set (ids ?fr)"
    by simp
  have b: "fst (download_tiktok_video download_fails_env (example_video ''A'') (world ?fr)) = None"
    by (simp add: download_tiktok_video_def download_fails_env_simps example_video_simps Let_def)
  note T = cursor_discipline [where upload_all = True and e = download_fails_env
      and w = fresh_world and c = 0 and ps = "[(True, download_fails_env)]" and c' = 3
      and v = "example_video ''A''" and s = ?fr and cur = 0 and n = 3 and idx = 0]
  from T obtain hs where hs:
    "saved_histories (trace (snd (main True download_fails_env fresh_world)))
       = saved_histories (trace fresh_world) @ hs"
    "\<forall>c. persisted_cursor (store fresh_world) = Some c \<longrightarrow> sorted_wrt (<) (c # map cursor_of hs)"
    "\<forall>c. persisted_cursor (store fresh_world) = Some c \<and> 0 \<le> c \<longrightarrow>
       (\<forall>h \<in> set hs. \<exists>i.
           nat c \<le> i \<and> (\<not> True \<longrightarrow> i = nat c)
           \<and> i < length (get_all_tiktok_videos download_fails_env)
           \<and> current_index h = Some (int i + 1)
           \<and> video_id (get_all_tiktok_videos download_fails_env ! i) \<in> set (ids_of h)
           \<and> (video_id (get_all_tiktok_videos download_fails_env ! i)
                 \<in> persisted_ids (store fresh_world)
               \<or> (\<exists>b y. Upload (output_file (video_id (get_all_tiktok_videos download_fails_env ! i)))
                         b (Some y)
                       \<in> set (trace (snd (main True download_fails_env fresh_world))))))"
    by blast
  from hs(1) ev have eq: "hs = [?h2, ?h3]" by (simp add: fresh_world_def)
  with hs(2) pc have sorted: "sorted_wrt (<) (0 # map cursor_of [?h2, ?h3])" by blast
  from hs(3) pc eq have item:
    "\<exists>i < length (get_all_tiktok_videos download_fails_env).
        current_index ?h3 = Some (int i + 1)
        \<and> video_id (get_all_tiktok_videos download_fails_env ! i) \<in> set (ids_of ?h3)"
    by fastforce
  from T pc fin have mono: "(0::int) \<le> 3" by blast
  from T a b have keep:
    "fst (loop_body download_fails_env True 0 3 0 (example_video ''A'') ?fr) = None
     \<and> history (snd (loop_body download_fails_env True 0 3 0 (example_video ''A'') ?fr)) = history ?fr
     \<and> store (world (snd (loop_body download_fails_env True 0 3 0 (example_video ''A'') ?fr)))
         = store (world ?fr)"
    by blast
  from pc ev sorted item fin mono a b keep show ?thesis
    by (simp add: example_frame_def)
qed

end
